theory Spec2Isabelle
  imports Main "HOL-Library.Finite_Map" "HOL-Library.Char_ord" "HOL-Library.List_Lexorder"
begin

section \<open>Rows and tables\<close>

text \<open>
  A serialized node or relationship is a Python dict from column name to scalar value.
  It is kept as the list of its items in insertion order; the value type \<open>'v\<close> is left
  open, since the loader never inspects a value.
\<close>

type_synonym 'v row = "(string \<times> 'v) list"

text \<open>
  Modelled from the spec: the dataframe library (\<open>pandas\<close>) is an external collaborator
  and its code is not part of the repository. A table is a header (the CSV header row,
  index column excluded) and its data rows, one per record, in order. A data row is the
  list of its cells, one under each column of the header; an empty cell is \<open>None\<close>. A
  cell holds the value of the record; the text that \<open>to_csv\<close> writes for a value depends
  on the type pandas gives the column and is not modelled.
\<close>

record 'v dataframe =
  columns :: "string list"
  rows :: "'v option list list"

text \<open>The cell that a row laid out under the header \<open>cols\<close> has in column \<open>c\<close>.\<close>

definition cell :: "string list \<Rightarrow> 'v option list \<Rightarrow> string \<Rightarrow> 'v option" where
  "cell cols r c = (case map_of (zip cols r) c of Some v \<Rightarrow> v | None \<Rightarrow> None)"

text \<open>
  \<open>pd.DataFrame.from_records(node_dict, index=[0])\<close>: for a dict pandas takes the column
  names in sorted order; the table has the one row of the dict's values.
\<close>

definition from_records :: "'v row \<Rightarrow> 'v dataframe" where
  "from_records node_dict =
     (let cols = sort (map fst node_dict)
      in \<lparr>columns = cols, rows = [map (map_of node_dict) cols]\<rparr>)"

text \<open>
  \<open>df.append(df2, ignore_index=True)\<close>: the rows of \<open>df2\<close> after those of \<open>df\<close>; the
  header gains the columns of \<open>df2\<close> that \<open>df\<close> lacks, and every row is laid out under
  the new header.
\<close>

definition df_append :: "'v dataframe \<Rightarrow> 'v dataframe \<Rightarrow> 'v dataframe" where
  "df_append df df2 =
     (let cols = columns df @ filter (\<lambda>c. c \<notin> set (columns df)) (columns df2)
      in \<lparr>columns = cols,
          rows = map (\<lambda>r. map (cell (columns df) r) cols) (rows df) @
                 map (\<lambda>r. map (cell (columns df2) r) cols) (rows df2)\<rparr>)"

section \<open>The object store\<close>

text \<open>
  Modelled from the spec: the object-storage client (\<open>boto3\<close>, and \<open>s3fs\<close> behind the
  \<open>s3://\<close> URLs of \<open>pandas\<close>) is an external collaborator. The spec's storage contract is
  an existence check by key that tells found from not-found from other errors, a
  whole-object read, a whole-object write, and a per-object ACL update enumerable by key
  prefix.

  An exception of the client is either a \<open>botocore.exceptions.ClientError\<close>, with the
  value of \<open>response['Error']['Code']\<close>, or any other exception.
\<close>

datatype s3_error = ClientError string | OtherError string

text \<open>
  The requests the loader sends. \<open>ReadCsv bucket key\<close> and \<open>WriteCsv bucket key df\<close> are
  the read and the write of the URL \<open>s3://<bucket>/<key>\<close>.
\<close>

datatype 'v s3_call =
    HeadObject string string
  | ReadCsv string string
  | WriteCsv string string "'v dataframe"
  | ListObjects string string
  | PutAcl string string string

record 'v s3_object =
  body :: "'v dataframe"
  acl :: string

text \<open>
  The store holds the objects of every bucket, addressed by bucket and key; the order of
  the list has no meaning. The body of an object is the table that \<open>to_csv\<close> was given
  when the object was written, and \<open>read_back w df\<close> is the table that \<open>pd.read_csv\<close>
  returns for such an object: reading infers the type of every column from the text and
  need not give back the values that were written. \<open>fault w n c\<close> is the error, if any,
  with which the service answers the request \<open>c\<close> when it is the \<open>n\<close>-th request made;
  \<open>trace\<close> is the sequence of requests made so far, the failed ones included.
\<close>

record 'v s3_world =
  objects :: "((string \<times> string) \<times> 'v s3_object) list"
  read_back :: "'v dataframe \<Rightarrow> 'v dataframe"
  fault :: "nat \<Rightarrow> 'v s3_call \<Rightarrow> s3_error option"
  trace :: "'v s3_call list"

text \<open>
  Sending a request: it is appended to the trace, and the service's error for it, if
  any, is returned.
\<close>

definition request :: "'v s3_call \<Rightarrow> 'v s3_world \<Rightarrow> s3_error option \<times> 'v s3_world" where
  "request c w = (fault w (length (trace w)) c, w\<lparr>trace := trace w @ [c]\<rparr>)"

text \<open>Storing an object under a bucket and key, in place of the one that is there.\<close>

fun put_object ::
  "string \<times> string \<Rightarrow> 'v s3_object \<Rightarrow> ((string \<times> string) \<times> 'v s3_object) list
     \<Rightarrow> ((string \<times> string) \<times> 'v s3_object) list" where
  "put_object k v [] = [(k, v)]"
| "put_object k v (p # ps) = (if fst p = k then (k, v) # ps else p # put_object k v ps)"

text \<open>\<open>s3.Object(bucket, key).load()\<close>: a missing object is a \<open>ClientError\<close> with code 404.\<close>

definition head_object ::
  "string \<Rightarrow> string \<Rightarrow> 'v s3_world \<Rightarrow> (s3_error + unit) \<times> 'v s3_world" where
  "head_object bucket key w =
     (case request (HeadObject bucket key) w of
        (Some e, w') \<Rightarrow> (Inl e, w')
      | (None, w') \<Rightarrow>
          (case map_of (objects w') (bucket, key) of
             None \<Rightarrow> (Inl (ClientError ''404''), w')
           | Some obj \<Rightarrow> (Inr (), w')))"

text \<open>\<open>pd.read_csv('s3://' + bucket + '/' + key)\<close>.\<close>

definition read_csv ::
  "string \<Rightarrow> string \<Rightarrow> 'v s3_world \<Rightarrow> (s3_error + 'v dataframe) \<times> 'v s3_world" where
  "read_csv bucket key w =
     (case request (ReadCsv bucket key) w of
        (Some e, w') \<Rightarrow> (Inl e, w')
      | (None, w') \<Rightarrow>
          (case map_of (objects w') (bucket, key) of
             None \<Rightarrow> (Inl (OtherError ''FileNotFoundError''), w')
           | Some obj \<Rightarrow> (Inr (read_back w' (body obj)), w')))"

text \<open>
  \<open>df.to_csv('s3://' + bucket + '/' + key, index=False)\<close>: the object is replaced as a
  whole, and a replaced object starts with the default ACL.
\<close>

definition to_csv ::
  "'v dataframe \<Rightarrow> string \<Rightarrow> string \<Rightarrow> 'v s3_world \<Rightarrow> (s3_error + unit) \<times> 'v s3_world" where
  "to_csv df bucket key w =
     (case request (WriteCsv bucket key df) w of
        (Some e, w') \<Rightarrow> (Inl e, w')
      | (None, w') \<Rightarrow>
          (Inr (), w'\<lparr>objects :=
             put_object (bucket, key) \<lparr>body = df, acl = ''private''\<rparr> (objects w')\<rparr>))"

text \<open>\<open>str.startswith\<close>.\<close>

definition startswith :: "string \<Rightarrow> string \<Rightarrow> bool" where
  "startswith s p = (take (length p) s = p)"

text \<open>
  \<open>s3.Bucket(bucket).objects.filter(Prefix=prefix)\<close>: \<open>listing\<close> is the keys of the
  bucket that start with the prefix, each once, in the order of their bytes, as the
  service lists them; \<open>list_objects\<close> is the request that returns them.
\<close>

definition listing :: "string \<Rightarrow> string \<Rightarrow> 'v s3_world \<Rightarrow> string list" where
  "listing bucket prefix w =
     sort (remdups (map snd
       (filter (\<lambda>bk. fst bk = bucket \<and> startswith (snd bk) prefix) (map fst (objects w)))))"

definition list_objects ::
  "string \<Rightarrow> string \<Rightarrow> 'v s3_world \<Rightarrow> (s3_error + string list) \<times> 'v s3_world" where
  "list_objects bucket prefix w =
     (case request (ListObjects bucket prefix) w of
        (Some e, w') \<Rightarrow> (Inl e, w')
      | (None, w') \<Rightarrow> (Inr (listing bucket prefix w'), w'))"

text \<open>\<open>obj.Acl().put(ACL=a)\<close>.\<close>

definition put_acl ::
  "string \<Rightarrow> string \<Rightarrow> string \<Rightarrow> 'v s3_world \<Rightarrow> (s3_error + unit) \<times> 'v s3_world" where
  "put_acl bucket key a w =
     (case request (PutAcl bucket key a) w of
        (Some e, w') \<Rightarrow> (Inl e, w')
      | (None, w') \<Rightarrow>
          (case map_of (objects w') (bucket, key) of
             None \<Rightarrow> (Inl (ClientError ''NoSuchKey''), w')
           | Some obj \<Rightarrow>
               (Inr (), w'\<lparr>objects := put_object (bucket, key) (obj\<lparr>acl := a\<rparr>) (objects w')\<rparr>)))"

section \<open>The loader\<close>

text \<open>
  Modelled from the spec: the record that yields nodes and relationships, and the
  serializer that turns each into a row, are declared elsewhere in the repository and
  are opaque to the loader. Of a node \<open>load\<close> reads \<open>label\<close>, of a relationship \<open>start_label\<close>,
  \<open>end_label\<close> and \<open>type\<close>: these are the fields of the two records below, and whatever
  else a node or relationship carries is its \<open>node_data\<close> or \<open>relationship_data\<close>. The
  serializer is a parameter of the model (\<open>serialize_node\<close>, \<open>serialize_relationship\<close>).
  A \<open>GraphSerializable\<close> is the finite sequence of nodes that \<open>next_node()\<close> returns one
  by one before \<open>None\<close>, and the same for \<open>next_relation()\<close>.
\<close>

record 'a graph_node =
  label :: string
  node_data :: 'a

record 'b graph_relationship =
  start_label :: string
  end_label :: string
  type :: string
  relationship_data :: 'b

record ('a, 'b) graph_serializable =
  nodes :: "'a graph_node list"
  relations :: "'b graph_relationship list"

text \<open>
  The fields of \<open>S3Neo4jCSVLoader\<close> that \<open>load\<close> reads: the three strings that
  \<open>init\<close> takes from the configuration, and \<open>_keys\<close>, the dict from a frozenset of column
  names to its number.
\<close>

record loader =
  s3_bucket :: string
  node_s3_prefix :: string
  relation_s3_prefix :: string
  keys :: "(string set, nat) fmap"

definition NODE_S3_BUCKET :: string where "NODE_S3_BUCKET = ''node_s3_bucket''"
definition NODE_S3_PREFIX :: string where "NODE_S3_PREFIX = ''node_s3_prefix''"
definition RELATION_S3_PREFIX :: string where "RELATION_S3_PREFIX = ''relations_s3_prefix''"

text \<open>
  \<open>__init__\<close> followed by \<open>init(conf)\<close>: \<open>_keys\<close> starts empty, and \<open>conf.get_string\<close>
  raises on a key the configuration lacks.
\<close>

definition init :: "(string \<rightharpoonup> string) \<Rightarrow> loader option" where
  "init conf =
     (case conf NODE_S3_BUCKET of None \<Rightarrow> None | Some b \<Rightarrow>
      (case conf NODE_S3_PREFIX of None \<Rightarrow> None | Some n \<Rightarrow>
       (case conf RELATION_S3_PREFIX of None \<Rightarrow> None | Some r \<Rightarrow>
          Some \<lparr>s3_bucket = b, node_s3_prefix = n, relation_s3_prefix = r, keys = fmempty\<rparr>)))"

text \<open>
  \<open>_make_key\<close>: \<open>self._keys.setdefault(frozenset(record_dict.keys()), len(self._keys))\<close>.
  The result is the number and the loader with its updated \<open>_keys\<close>.
\<close>

definition make_key :: "'v row \<Rightarrow> loader \<Rightarrow> nat \<times> loader" where
  "make_key record_dict self =
     (let k = set (map fst record_dict); d = fcard (fmdom (keys self))
      in case fmlookup (keys self) k of
           Some v \<Rightarrow> (v, self)
         | None \<Rightarrow> (d, self\<lparr>keys := fmupd k d (keys self)\<rparr>))"

text \<open>\<open>get_scope\<close> returns a literal; it reads and writes nothing.\<close>

definition get_scope :: "loader \<Rightarrow> string" where
  "get_scope self = ''loader.filesystem_csv_neo4j''"

text \<open>The decimal digits of a number, as \<open>format\<close> writes an \<open>int\<close>.\<close>

fun str :: "nat \<Rightarrow> string" where
  "str n = (if n < 10 then [''0123456789'' ! n]
            else str (n div 10) @ [''0123456789'' ! (n mod 10)])"

declare str.simps [simp del]

text \<open>
  \<open>_s3_obj_exists\<close>. The result is \<open>Some True\<close>, \<open>Some False\<close>, or \<open>None\<close> where the
  Python function ends without a \<open>return\<close>: a \<open>ClientError\<close> whose code is not 404 is
  caught by the \<open>except\<close> clause and nothing is returned or raised again. Any other
  exception is not caught. The arguments \<open>node_dict\<close> and \<open>key\<close> are not read.
\<close>

definition s3_obj_exists ::
  "'v row \<Rightarrow> 'k \<Rightarrow> string \<Rightarrow> string \<Rightarrow> string \<Rightarrow> 'v s3_world
     \<Rightarrow> (s3_error + bool option) \<times> 'v s3_world" where
  "s3_obj_exists node_dict key node_dir file_suffix bucket_info w =
     (case head_object bucket_info (node_dir @ file_suffix @ ''.csv'') w of
        (Inr u, w') \<Rightarrow> (Inr (Some True), w')
      | (Inl (ClientError code), w') \<Rightarrow>
          (if code = ''404'' then (Inr (Some False), w') else (Inr None, w'))
      | (Inl (OtherError x), w') \<Rightarrow> (Inl (OtherError x), w'))"

text \<open>\<open>_get_s3_object\<close>. The argument \<open>key\<close> is only handed on.\<close>

definition get_s3_object ::
  "'v row \<Rightarrow> 'k \<Rightarrow> string \<Rightarrow> string \<Rightarrow> string \<Rightarrow> 'v s3_world
     \<Rightarrow> (s3_error + unit) \<times> 'v s3_world" where
  "get_s3_object node_dict key s3_bucket_info node_s3_prefix' file_suffix w =
     (case s3_obj_exists node_dict key node_s3_prefix' file_suffix s3_bucket_info w of
        (Inl e, w1) \<Rightarrow> (Inl e, w1)
      | (Inr r, w1) \<Rightarrow>
          (if r = Some True then
             (case read_csv s3_bucket_info (node_s3_prefix' @ file_suffix @ ''.csv'') w1 of
                (Inl e, w2) \<Rightarrow> (Inl e, w2)
              | (Inr df, w2) \<Rightarrow>
                  to_csv (df_append df (from_records node_dict))
                    s3_bucket_info (node_s3_prefix' @ file_suffix @ ''.csv'') w2)
           else
             to_csv (from_records node_dict)
               s3_bucket_info (node_s3_prefix' @ file_suffix @ ''.csv'') w1))"

text \<open>\<open>update_acls\<close>: the loop over the listing, then the function.\<close>

fun put_acls :: "string \<Rightarrow> string list \<Rightarrow> 'v s3_world \<Rightarrow> (s3_error + unit) \<times> 'v s3_world" where
  "put_acls bucket [] w = (Inr (), w)"
| "put_acls bucket (obj # objs) w =
     (case put_acl bucket obj ''public-read'' w of
        (Inl e, w') \<Rightarrow> (Inl e, w')
      | (Inr u, w') \<Rightarrow> put_acls bucket objs w')"

definition update_acls ::
  "string \<Rightarrow> string \<Rightarrow> 'v s3_world \<Rightarrow> (s3_error + unit) \<times> 'v s3_world" where
  "update_acls s3_bucket_name s3_prefix w =
     (case list_objects s3_bucket_name s3_prefix w of
        (Inl e, w') \<Rightarrow> (Inl e, w')
      | (Inr objs, w') \<Rightarrow> put_acls s3_bucket_name objs w')"

text \<open>
  \<open>load\<close>. Its first \<open>while\<close> loop is \<open>load_nodes\<close>, over the nodes that \<open>next_node()\<close>
  still has to return; its second is \<open>load_relations\<close>. The result is the exception
  that ended the call, if any, with the loader and the store as the call left them.
  The file suffix of a node is made of both components of \<open>key\<close>, that of a relationship
  of the first three of the four components of \<open>key2\<close>.
\<close>

fun load_nodes ::
  "('a graph_node \<Rightarrow> 'v row) \<Rightarrow> 'a graph_node list \<Rightarrow> loader \<Rightarrow> 'v s3_world
     \<Rightarrow> (s3_error + unit) \<times> loader \<times> 'v s3_world" where
  "load_nodes serialize_node [] self w = (Inr (), self, w)"
| "load_nodes serialize_node (node # rest) self w =
     (let node_dict = serialize_node node;
          (sig, self') = make_key node_dict self;
          key = (label node, sig);
          file_suffix = fst key @ ''_'' @ str (snd key)
      in case get_s3_object node_dict key (s3_bucket self') (node_s3_prefix self')
                file_suffix w of
           (Inl e, w') \<Rightarrow> (Inl e, self', w')
         | (Inr u, w') \<Rightarrow> load_nodes serialize_node rest self' w')"

fun load_relations ::
  "('b graph_relationship \<Rightarrow> 'v row) \<Rightarrow> 'b graph_relationship list \<Rightarrow> loader \<Rightarrow> 'v s3_world
     \<Rightarrow> (s3_error + unit) \<times> loader \<times> 'v s3_world" where
  "load_relations serialize_relationship [] self w = (Inr (), self, w)"
| "load_relations serialize_relationship (relation # rest) self w =
     (let relation_dict = serialize_relationship relation;
          (sig, self') = make_key relation_dict self;
          key2 = (start_label relation, end_label relation, type relation, sig);
          file_suffix = fst key2 @ ''_'' @ fst (snd key2) @ ''_'' @ fst (snd (snd key2))
      in case get_s3_object relation_dict key2 (s3_bucket self') (relation_s3_prefix self')
                file_suffix w of
           (Inl e, w') \<Rightarrow> (Inl e, self', w')
         | (Inr u, w') \<Rightarrow> load_relations serialize_relationship rest self' w')"

definition load ::
  "('a graph_node \<Rightarrow> 'v row) \<Rightarrow> ('b graph_relationship \<Rightarrow> 'v row)
     \<Rightarrow> ('a, 'b) graph_serializable \<Rightarrow> loader \<Rightarrow> 'v s3_world
     \<Rightarrow> (s3_error + unit) \<times> loader \<times> 'v s3_world" where
  "load serialize_node serialize_relationship csv_serializable self w =
     (case load_nodes serialize_node (nodes csv_serializable) self w of
        (Inl e, self1, w1) \<Rightarrow> (Inl e, self1, w1)
      | (Inr u, self1, w1) \<Rightarrow>
          (case update_acls (s3_bucket self1) (node_s3_prefix self1) w1 of
             (Inl e, w2) \<Rightarrow> (Inl e, self1, w2)
           | (Inr u', w2) \<Rightarrow>
               load_relations serialize_relationship (relations csv_serializable) self1 w2))"

section \<open>Observations\<close>

text \<open>The requests made between two states of the store.\<close>

definition requests_since :: "'v s3_world \<Rightarrow> 'v s3_world \<Rightarrow> 'v s3_call list" where
  "requests_since w w' = drop (length (trace w)) (trace w')"

text \<open>The requests of one call of \<open>load\<close>, and those of its node loop.\<close>

definition load_requests ::
  "('a graph_node \<Rightarrow> 'v row) \<Rightarrow> ('b graph_relationship \<Rightarrow> 'v row)
     \<Rightarrow> ('a, 'b) graph_serializable \<Rightarrow> loader \<Rightarrow> 'v s3_world \<Rightarrow> 'v s3_call list" where
  "load_requests serialize_node serialize_relationship csv_serializable self w =
     requests_since w
       (snd (snd (load serialize_node serialize_relationship csv_serializable self w)))"

definition nodes_requests ::
  "('a graph_node \<Rightarrow> 'v row) \<Rightarrow> 'a graph_node list \<Rightarrow> loader \<Rightarrow> 'v s3_world
     \<Rightarrow> 'v s3_call list" where
  "nodes_requests serialize_node ns self w =
     requests_since w (snd (snd (load_nodes serialize_node ns self w)))"

text \<open>
  The requests of the ACL pass that \<open>load\<close> runs from the state in which the node loop
  ended, and those of the relationship loop that it runs from the state in which the
  pass ended.
\<close>

definition acls_requests ::
  "('a graph_node \<Rightarrow> 'v row) \<Rightarrow> ('a, 'b) graph_serializable \<Rightarrow> loader \<Rightarrow> 'v s3_world
     \<Rightarrow> 'v s3_call list" where
  "acls_requests serialize_node csv_serializable self w =
     (let w1 = snd (snd (load_nodes serialize_node (nodes csv_serializable) self w))
      in requests_since w1 (snd (update_acls (s3_bucket self) (node_s3_prefix self) w1)))"

definition relations_requests ::
  "('a graph_node \<Rightarrow> 'v row) \<Rightarrow> ('b graph_relationship \<Rightarrow> 'v row)
     \<Rightarrow> ('a, 'b) graph_serializable \<Rightarrow> loader \<Rightarrow> 'v s3_world \<Rightarrow> 'v s3_call list" where
  "relations_requests serialize_node serialize_relationship csv_serializable self w =
     (let s1 = fst (snd (load_nodes serialize_node (nodes csv_serializable) self w));
          w1 = snd (snd (load_nodes serialize_node (nodes csv_serializable) self w));
          w2 = snd (update_acls (s3_bucket self) (node_s3_prefix self) w1)
      in requests_since w2
           (snd (snd (load_relations serialize_relationship (relations csv_serializable) s1 w2))))"

text \<open>The key, or the prefix, that a request names.\<close>

fun call_key :: "'v s3_call \<Rightarrow> string" where
  "call_key (HeadObject b k) = k"
| "call_key (ReadCsv b k) = k"
| "call_key (WriteCsv b k df) = k"
| "call_key (ListObjects b p) = p"
| "call_key (PutAcl b k a) = k"

fun is_read :: "'v s3_call \<Rightarrow> bool" where
  "is_read (ReadCsv b k) = True"
| "is_read c = False"

fun is_write :: "'v s3_call \<Rightarrow> bool" where
  "is_write (WriteCsv b k df) = True"
| "is_write c = False"

fun is_list :: "'v s3_call \<Rightarrow> bool" where
  "is_list (ListObjects b p) = True"
| "is_list c = False"

fun is_put_acl :: "'v s3_call \<Rightarrow> bool" where
  "is_put_acl (PutAcl b k a) = True"
| "is_put_acl c = False"

text \<open>
  \<open>row_request bucket key c\<close>: the request \<open>c\<close> is the existence check, the read or a
  write of the object \<open>key\<close> of \<open>bucket\<close>.
\<close>

fun row_request :: "string \<Rightarrow> string \<Rightarrow> 'v s3_call \<Rightarrow> bool" where
  "row_request bucket key (HeadObject b k) = (b = bucket \<and> k = key)"
| "row_request bucket key (ReadCsv b k) = (b = bucket \<and> k = key)"
| "row_request bucket key (WriteCsv b k df) = (b = bucket \<and> k = key)"
| "row_request bucket key c = False"

text \<open>The loader after \<open>_make_key\<close> has been called on each row of a list in turn.\<close>

definition make_keys :: "'v row list \<Rightarrow> loader \<Rightarrow> loader" where
  "make_keys ds self = fold (\<lambda>d s. snd (make_key d s)) ds self"

text \<open>
  The object keys in the words of the spec's file naming:
  \<open><node_prefix><label>_<signature_id>.csv\<close> and
  \<open><relation_prefix><start_label>_<end_label>_<type>_<signature_id>.csv\<close>.
\<close>

definition node_object_key :: "string \<Rightarrow> string \<Rightarrow> nat \<Rightarrow> string" where
  "node_object_key node_prefix lbl sig = node_prefix @ lbl @ ''_'' @ str sig @ ''.csv''"

definition relation_object_key :: "string \<Rightarrow> string \<Rightarrow> string \<Rightarrow> string \<Rightarrow> nat \<Rightarrow> string" where
  "relation_object_key relation_prefix start end ty sig =
     relation_prefix @ start @ ''_'' @ end @ ''_'' @ ty @ ''_'' @ str sig @ ''.csv''"

text \<open>
  The state of \<open>_keys\<close> that \<open>_make_key\<close> maintains: the numbers in use are those below
  the number of entries, and no number is used twice.
\<close>

definition keys_inv :: "(string set, nat) fmap \<Rightarrow> bool" where
  "keys_inv m =
     (fset (fmran m) = {0..<fcard (fmdom m)} \<and>
      (\<forall>a b v. fmlookup m a = Some v \<and> fmlookup m b = Some v \<longrightarrow> a = b))"

section \<open>Example inputs\<close>

text \<open>
  A loader as \<open>init\<close> leaves it, a store without objects that answers every request and
  reads back what was written, a node and two relationships between the same labels and
  of the same type whose rows differ in their columns. The serializer of the examples
  returns the row that the node or relationship carries.
\<close>

definition ex_conf :: "string \<rightharpoonup> string" where
  "ex_conf = [NODE_S3_BUCKET \<mapsto> ''bucket'', NODE_S3_PREFIX \<mapsto> ''nodes/'',
              RELATION_S3_PREFIX \<mapsto> ''rels/'']"

definition ex_loader :: loader where
  "ex_loader = \<lparr>s3_bucket = ''bucket'', node_s3_prefix = ''nodes/'',
                 relation_s3_prefix = ''rels/'', keys = fmempty\<rparr>"

definition ex_world :: "string s3_world" where
  "ex_world = \<lparr>objects = [], read_back = (\<lambda>df. df), fault = (\<lambda>n c. None), trace = []\<rparr>"

definition ex_node :: "string row graph_node" where
  "ex_node = \<lparr>label = ''Table'', node_data = [(''LABEL'', ''Table''), (''KEY'', ''db://t1'')]\<rparr>"

definition ex_relation :: "string row graph_relationship" where
  "ex_relation =
     \<lparr>start_label = ''Table'', end_label = ''Column'', type = ''COLUMN'',
      relationship_data = [(''START_KEY'', ''db://t1''), (''END_KEY'', ''db://t1/c1'')]\<rparr>"

definition ex_relation' :: "string row graph_relationship" where
  "ex_relation' =
     \<lparr>start_label = ''Table'', end_label = ''Column'', type = ''COLUMN'',
      relationship_data =
        [(''START_KEY'', ''db://t1''), (''END_KEY'', ''db://t1/c2''), (''sort_order'', ''2'')]\<rparr>"

text \<open>A table of one row under the key of \<open>ex_node\<close>, and a store that holds it.\<close>

definition ex_table :: "string dataframe" where
  "ex_table = \<lparr>columns = [''KEY'', ''LABEL''], rows = [[Some ''db://t0'', Some ''Table'']]\<rparr>"

definition ex_world_stored :: "string s3_world" where
  "ex_world_stored =
     \<lparr>objects = [((''bucket'', ''nodes/Table_0.csv''), \<lparr>body = ex_table, acl = ''private''\<rparr>)],
      read_back = (\<lambda>df. df), fault = (\<lambda>n c. None), trace = []\<rparr>"

text \<open>
  The same store when the service answers every existence check with a \<open>ClientError\<close>
  of code 403, and a store without objects whose existence checks end in an exception
  that is not a \<open>ClientError\<close>.
\<close>

definition ex_world_denied :: "string s3_world" where
  "ex_world_denied =
     \<lparr>objects = [((''bucket'', ''nodes/Table_0.csv''), \<lparr>body = ex_table, acl = ''private''\<rparr>)],
      read_back = (\<lambda>df. df),
      fault = (\<lambda>n c. case c of HeadObject b k \<Rightarrow> Some (ClientError ''403'') | _ \<Rightarrow> None),
      trace = []\<rparr>"

definition ex_world_unreachable :: "string s3_world" where
  "ex_world_unreachable =
     \<lparr>objects = [], read_back = (\<lambda>df. df),
      fault = (\<lambda>n c. case c of HeadObject b k \<Rightarrow> Some (OtherError ''EndpointConnectionError'')
                      | _ \<Rightarrow> None),
      trace = []\<rparr>"

text \<open>
  A loader whose two prefixes are the same, and a store that holds the table of a
  relationship under that prefix.
\<close>

definition ex_loader_shared :: loader where
  "ex_loader_shared = \<lparr>s3_bucket = ''bucket'', node_s3_prefix = ''data/'',
                        relation_s3_prefix = ''data/'', keys = fmempty\<rparr>"

definition ex_world_shared :: "string s3_world" where
  "ex_world_shared =
     \<lparr>objects = [((''bucket'', ''data/Table_Column_COLUMN.csv''),
                   \<lparr>body = from_records (relationship_data ex_relation), acl = ''private''\<rparr>)],
      read_back = (\<lambda>df. df), fault = (\<lambda>n c. None), trace = []\<rparr>"

text \<open>
  A store that holds two objects under the node prefix and refuses the listing.
\<close>

definition ex_world_unlisted :: "string s3_world" where
  "ex_world_unlisted =
     \<lparr>objects = [((''bucket'', ''nodes/Table_0.csv''), \<lparr>body = ex_table, acl = ''private''\<rparr>),
                  ((''bucket'', ''nodes/Column_1.csv''), \<lparr>body = ex_table, acl = ''private''\<rparr>)],
      read_back = (\<lambda>df. df),
      fault = (\<lambda>n c. case c of ListObjects b p \<Rightarrow> Some (ClientError ''AccessDenied'')
                      | _ \<Rightarrow> None),
      trace = []\<rparr>"

text \<open>
  A record of one node and one relationship, one of the node alone, one of the two
  relationships, one of nothing, and a sequence of rows.
\<close>

definition ex_record :: "(string row, string row) graph_serializable" where
  "ex_record = \<lparr>nodes = [ex_node], relations = [ex_relation]\<rparr>"

definition ex_node_record :: "(string row, string row) graph_serializable" where
  "ex_node_record = \<lparr>nodes = [ex_node], relations = []\<rparr>"

definition ex_relations_record :: "(string row, string row) graph_serializable" where
  "ex_relations_record = \<lparr>nodes = [], relations = [ex_relation, ex_relation']\<rparr>"

definition ex_empty_record :: "(string row, string row) graph_serializable" where
  "ex_empty_record = \<lparr>nodes = [], relations = []\<rparr>"

definition ex_rows :: "string row list" where
  "ex_rows = [node_data ex_node, relationship_data ex_relation, node_data ex_node]"

section \<open>The signature ids\<close>

lemma make_key_new:
  "fmlookup (keys self) (set (map fst d)) = None \<Longrightarrow>
     make_key d self = (fcard (fmdom (keys self)),
        self\<lparr>keys := fmupd (set (map fst d)) (fcard (fmdom (keys self))) (keys self)\<rparr>)"
  by (simp add: make_key_def Let_def)

lemma make_key_old:
  "fmlookup (keys self) (set (map fst d)) = Some v \<Longrightarrow> make_key d self = (v, self)"
  by (simp add: make_key_def)

lemma make_key_recorded:
  "fmlookup (keys (snd (make_key d self))) (set (map fst d)) = Some (fst (make_key d self))"
  by (cases "fmlookup (keys self) (set (map fst d))") (simp_all add: make_key_def Let_def)

lemma make_key_lookup_mono:
  "fmlookup (keys self) k = Some v \<Longrightarrow> fmlookup (keys (snd (make_key d self))) k = Some v"
  by (cases "fmlookup (keys self) (set (map fst d))") (auto simp: make_key_def Let_def)

lemma make_key_config [simp]:
  "s3_bucket (snd (make_key d self)) = s3_bucket self"
  "node_s3_prefix (snd (make_key d self)) = node_s3_prefix self"
  "relation_s3_prefix (snd (make_key d self)) = relation_s3_prefix self"
  by (cases "fmlookup (keys self) (set (map fst d))"; simp add: make_key_def Let_def)+

lemma fcard_dom_new:
  "fmlookup m k = None \<Longrightarrow> fcard (fmdom (fmupd k v m)) = Suc (fcard (fmdom m))"
  by (simp add: fcard_finsert_disjoint fmdom_notI)

lemma fmran_fmupd_new:
  assumes "fmlookup m k = None"
  shows "fset (fmran (fmupd k v m)) = insert v (fset (fmran m))"
proof (intro set_eqI iffI)
  fix x assume "x \<in> fset (fmran (fmupd k v m))"
  then obtain a where "fmlookup (fmupd k v m) a = Some x" by (auto simp: fmlookup_ran_iff)
  then show "x \<in> insert v (fset (fmran m))"
    by (cases "k = a") (auto simp: fmlookup_ran_iff)
next
  fix x assume "x \<in> insert v (fset (fmran m))"
  then consider "x = v" | a where "fmlookup m a = Some x" by (auto simp: fmlookup_ran_iff)
  then show "x \<in> fset (fmran (fmupd k v m))"
  proof cases
    case 1
    then have "fmlookup (fmupd k v m) k = Some x" by simp
    then show ?thesis by (metis fmranI)
  next
    case 2
    with assms have "a \<noteq> k" by auto
    with 2 have "fmlookup (fmupd k v m) a = Some x" by simp
    then show ?thesis by (metis fmranI)
  qed
qed

lemma keys_inv_empty: "keys_inv fmempty"
  by (simp add: keys_inv_def)

lemma keys_inv_upd:
  assumes "keys_inv m" "fmlookup m k = None"
  shows "keys_inv (fmupd k (fcard (fmdom m)) m)"
proof -
  let ?n = "fcard (fmdom m)"
  have ran: "fset (fmran m) = {0..<?n}"
    and inj: "\<And>a b v. fmlookup m a = Some v \<Longrightarrow> fmlookup m b = Some v \<Longrightarrow> a = b"
    using assms(1) unfolding keys_inv_def by blast+
  have fresh: "fmlookup m a \<noteq> Some ?n" for a
  proof
    assume "fmlookup m a = Some ?n"
    then have "?n |\<in>| fmran m" by (rule fmranI)
    with ran show False by simp
  qed
  have "fset (fmran (fmupd k ?n m)) = insert ?n {0..<?n}"
    using assms(2) ran by (simp only: fmran_fmupd_new)
  also have "\<dots> = {0..<Suc ?n}" by (rule atLeast0_lessThan_Suc [symmetric])
  also have "Suc ?n = fcard (fmdom (fmupd k ?n m))"
    using assms(2) by (simp only: fcard_dom_new)
  finally have r: "fset (fmran (fmupd k ?n m)) = {0..<fcard (fmdom (fmupd k ?n m))}" .
  have i: "a = b" if "fmlookup (fmupd k ?n m) a = Some v" "fmlookup (fmupd k ?n m) b = Some v"
    for a b v
  proof (cases "a = k")
    case True
    with that(1) have v: "v = ?n" by simp
    show ?thesis
    proof (cases "b = k")
      case True with \<open>a = k\<close> show ?thesis by simp
    next
      case False
      with that(2) v have "fmlookup m b = Some ?n" by simp
      with fresh show ?thesis by blast
    qed
  next
    case False
    with that(1) have a: "fmlookup m a = Some v" by simp
    show ?thesis
    proof (cases "b = k")
      case True
      with that(2) have "v = ?n" by simp
      with a fresh show ?thesis by blast
    next
      case False
      with that(2) have "fmlookup m b = Some v" by simp
      with a show ?thesis by (rule inj)
    qed
  qed
  from r i show ?thesis unfolding keys_inv_def by blast
qed

lemma keys_inv_make_key: "keys_inv (keys self) \<Longrightarrow> keys_inv (keys (snd (make_key d self)))"
  by (cases "fmlookup (keys self) (set (map fst d))")
    (simp_all add: make_key_new make_key_old keys_inv_upd)

lemma make_keys_Nil: "make_keys [] self = self"
  by (simp add: make_keys_def)

lemma make_keys_Cons: "make_keys (d # ds) self = make_keys ds (snd (make_key d self))"
  by (simp add: make_keys_def)

lemma make_keys_append: "make_keys (ds @ es) self = make_keys es (make_keys ds self)"
  by (simp add: make_keys_def)

lemma keys_inv_make_keys: "keys_inv (keys self) \<Longrightarrow> keys_inv (keys (make_keys ds self))"
  by (induction ds arbitrary: self) (simp_all add: make_keys_Nil make_keys_Cons keys_inv_make_key)

lemma make_key_keeps: "keys self \<subseteq>\<^sub>f keys (snd (make_key d self))"
  by (cases "fmlookup (keys self) (set (map fst d))")
    (simp_all add: make_key_new make_key_old fmsubset_alt_def fmpred_iff)

lemma load_nodes_keys:
  "fst (load_nodes sn ns self w) = Inr u \<Longrightarrow>
     fst (snd (load_nodes sn ns self w)) = make_keys (map sn ns) self"
proof (induction ns arbitrary: self w)
  case Nil
  then show ?case by (simp add: make_keys_Nil)
next
  case (Cons n ns)
  then show ?case
    by (simp add: make_keys_Cons split_beta Let_def split: prod.splits sum.splits)
qed

lemma load_relations_keys:
  "fst (load_relations sr rs self w) = Inr u \<Longrightarrow>
     fst (snd (load_relations sr rs self w)) = make_keys (map sr rs) self"
proof (induction rs arbitrary: self w)
  case Nil
  then show ?case by (simp add: make_keys_Nil)
next
  case (Cons n ns)
  then show ?case
    by (simp add: make_keys_Cons split_beta Let_def split: prod.splits sum.splits)
qed

lemma load_keys:
  assumes "fst (load sn sr r self w) = Inr u"
  shows "fst (snd (load sn sr r self w)) =
     make_keys (map sn (nodes r) @ map sr (relations r)) self"
proof -
  obtain r1 s1 w1 where n: "load_nodes sn (nodes r) self w = (r1, s1, w1)"
    by (cases "load_nodes sn (nodes r) self w") auto
  obtain r2 w2 where a: "update_acls (s3_bucket s1) (node_s3_prefix s1) w1 = (r2, w2)"
    by (cases "update_acls (s3_bucket s1) (node_s3_prefix s1) w1") auto
  from assms n a have r1: "r1 = Inr ()" and r2: "r2 = Inr ()"
    and l: "load sn sr r self w = load_relations sr (relations r) s1 w2"
    by (auto simp: load_def split: sum.splits)
  from n r1 have "s1 = make_keys (map sn (nodes r)) self"
    using load_nodes_keys [of sn "nodes r" self w "()"] by simp
  moreover from assms l
  have "fst (snd (load sn sr r self w)) = make_keys (map sr (relations r)) s1"
    using load_relations_keys [of sr "relations r" s1 w2 u] by simp
  ultimately show ?thesis by (simp add: make_keys_append)
qed

text \<open>\<open>init\<close> leaves \<open>_keys\<close> empty; the loader of the examples is one it returns.\<close>

lemma init_keys_empty: "init conf = Some self \<Longrightarrow> keys self = fmempty"
  by (auto simp: init_def split: option.splits)

lemma init_ex_conf: "init ex_conf = Some ex_loader"
  by (simp add: init_def ex_conf_def ex_loader_def NODE_S3_BUCKET_def NODE_S3_PREFIX_def
      RELATION_S3_PREFIX_def)

text \<open>
  C8. \<open>get_scope\<close> returns the literal string \<open>loader.filesystem_csv_neo4j\<close> for every
  loader, whatever its configuration and whatever calls came before; it is a function of
  the loader alone that returns nothing but the string, so it has no effect.
\<close>

theorem get_scope_literal: "get_scope self = ''loader.filesystem_csv_neo4j''"
  by (simp add: get_scope_def)

text \<open>
  C3. \<open>_make_key\<close> maps the set of a row's column names to a number. A set not yet in
  \<open>_keys\<close> gets the current number of entries, and \<open>_keys\<close> grows by that one entry; a set
  already there gets the number it has and \<open>_keys\<close> stays as it is; rows with the same
  column names in any order get the same number; the first number given is 0; and
  \<open>load\<close> runs node rows and relationship rows through the one \<open>_keys\<close> of the loader,
  nodes first.
\<close>

theorem make_key_signature_id:
  "(fmlookup (keys self) (set (map fst d)) = None \<longrightarrow>
      fst (make_key d self) = fcard (fmdom (keys self)) \<and>
      keys (snd (make_key d self)) =
        fmupd (set (map fst d)) (fcard (fmdom (keys self))) (keys self) \<and>
      fcard (fmdom (keys (snd (make_key d self)))) = Suc (fcard (fmdom (keys self)))) \<and>
   (\<forall>v. fmlookup (keys self) (set (map fst d)) = Some v \<longrightarrow> make_key d self = (v, self)) \<and>
   (set (map fst d') = set (map fst d) \<longrightarrow>
      fst (make_key d' (snd (make_key d self))) = fst (make_key d self)) \<and>
   (keys self = fmempty \<longrightarrow> fst (make_key d self) = 0) \<and>
   (fst (load sn sr r self w) = Inr u \<longrightarrow>
      fst (snd (load sn sr r self w)) =
        make_keys (map sn (nodes r) @ map sr (relations r)) self)"
proof (intro conjI impI allI)
  assume n: "fmlookup (keys self) (set (map fst d)) = None"
  then show "fst (make_key d self) = fcard (fmdom (keys self))"
    and "keys (snd (make_key d self)) =
        fmupd (set (map fst d)) (fcard (fmdom (keys self))) (keys self)"
    by (simp_all add: make_key_new)
  from n show "fcard (fmdom (keys (snd (make_key d self)))) = Suc (fcard (fmdom (keys self)))"
    by (simp add: make_key_new fcard_finsert_disjoint fmdom_notI)
next
  fix v assume "fmlookup (keys self) (set (map fst d)) = Some v"
  then show "make_key d self = (v, self)" by (rule make_key_old)
next
  assume e: "set (map fst d') = set (map fst d)"
  have "fmlookup (keys (snd (make_key d self))) (set (map fst d')) = Some (fst (make_key d self))"
    unfolding e by (rule make_key_recorded)
  then show "fst (make_key d' (snd (make_key d self))) = fst (make_key d self)"
    by (simp add: make_key_old)
next
  assume "keys self = fmempty"
  then show "fst (make_key d self) = 0" by (simp add: make_key_def Let_def)
next
  assume "fst (load sn sr r self w) = Inr u"
  then show "fst (snd (load sn sr r self w)) =
        make_keys (map sn (nodes r) @ map sr (relations r)) self"
    by (rule load_keys)
qed

theorem make_key_signature_id_witness:
  "keys ex_loader = fmempty \<and>
   fmlookup (keys ex_loader) (set (map fst (node_data ex_node))) = None \<and>
   fst (make_key (node_data ex_node) ex_loader) = 0 \<and>
   fcard (fmdom (keys (snd (make_key (node_data ex_node) ex_loader)))) = 1 \<and>
   fmlookup (keys (snd (make_key (node_data ex_node) ex_loader)))
     (set (map fst (node_data ex_node))) = Some 0 \<and>
   make_key (node_data ex_node) (snd (make_key (node_data ex_node) ex_loader)) =
     (0, snd (make_key (node_data ex_node) ex_loader)) \<and>
   set (map fst [(''LABEL'', ''Table''), (''KEY'', ''db://t2'')]) =
     set (map fst (node_data ex_node)) \<and>
   fst (make_key [(''LABEL'', ''Table''), (''KEY'', ''db://t2'')]
          (snd (make_key (node_data ex_node) ex_loader))) = 0 \<and>
   fst (load node_data relationship_data ex_record ex_loader ex_world) = Inr () \<and>
   fst (snd (load node_data relationship_data ex_record ex_loader ex_world)) =
     make_keys (map node_data (nodes ex_record) @ map relationship_data (relations ex_record))
       ex_loader"
proof -
  let ?d = "node_data ex_node"
  let ?d' = "[(''LABEL'', ''Table''), (''KEY'', ''db://t2'')]"
  let ?l1 = "snd (make_key ?d ex_loader)"
  have h1: "keys ex_loader = fmempty"
    by (simp add: ex_loader_def)
  have h2: "fmlookup (keys ex_loader) (set (map fst ?d)) = None"
    by (simp add: ex_loader_def)
  have h3: "fmlookup (keys ?l1) (set (map fst ?d)) = Some 0"
    by code_simp
  have h4: "set (map fst ?d') = set (map fst ?d)"
    by code_simp
  have h5: "fst (load node_data relationship_data ex_record ex_loader ex_world) = Inr ()"
    by code_simp
  note t1 = make_key_signature_id
    [of ex_loader ?d ?d' node_data relationship_data ex_record ex_world "()"]
  note t2 = make_key_signature_id
    [of ?l1 ?d ?d' node_data relationship_data ex_record ex_world "()"]
  from t1 h1 h2 have a: "fst (make_key ?d ex_loader) = 0"
    and b: "fcard (fmdom (keys ?l1)) = Suc (fcard (fmdom (keys ex_loader)))"
    by blast+
  from b h1 have b': "fcard (fmdom (keys ?l1)) = 1" by simp
  from t2 h3 have c: "make_key ?d ?l1 = (0, ?l1)" by blast
  from t1 h4 a have d: "fst (make_key ?d' ?l1) = 0" by simp
  from t1 h5 have e: "fst (snd (load node_data relationship_data ex_record ex_loader ex_world)) =
     make_keys (map node_data (nodes ex_record) @ map relationship_data (relations ex_record))
       ex_loader" by blast
  from h1 h2 a b' h3 c h4 d h5 e show ?thesis by blast
qed

lemma make_keys_lookup_mono:
  "fmlookup (keys self) k = Some v \<Longrightarrow> fmlookup (keys (make_keys ds self)) k = Some v"
  by (induction ds arbitrary: self)
    (simp_all add: make_keys_Nil make_keys_Cons make_key_lookup_mono)

text \<open>
  C10. After any sequence of \<open>_make_key\<close> calls on a loader whose \<open>_keys\<close> started empty,
  the numbers in \<open>_keys\<close> are exactly those below its number of entries, no two column
  sets share a number, a call on a recorded column set leaves the loader as it is, and
  every entry is still there, with its number, after any further calls.
\<close>

theorem keys_ids_contiguous:
  assumes "keys self0 = fmempty"
  shows "fset (fmran (keys (make_keys ds self0))) =
           {0..<fcard (fmdom (keys (make_keys ds self0)))} \<and>
         (\<forall>a b v. fmlookup (keys (make_keys ds self0)) a = Some v \<and>
                  fmlookup (keys (make_keys ds self0)) b = Some v \<longrightarrow> a = b) \<and>
         (fmlookup (keys (make_keys ds self0)) (set (map fst d)) \<noteq> None \<longrightarrow>
            snd (make_key d (make_keys ds self0)) = make_keys ds self0) \<and>
         keys (make_keys ds self0) \<subseteq>\<^sub>f keys (make_keys (ds @ es) self0)"
proof -
  let ?s = "make_keys ds self0"
  from assms have "keys_inv (keys self0)" by (simp add: keys_inv_empty)
  then have "keys_inv (keys ?s)" by (rule keys_inv_make_keys)
  then have 1: "fset (fmran (keys ?s)) = {0..<fcard (fmdom (keys ?s))}"
    and 2: "\<forall>a b v. fmlookup (keys ?s) a = Some v \<and> fmlookup (keys ?s) b = Some v \<longrightarrow> a = b"
    unfolding keys_inv_def by blast+
  have 3: "fmlookup (keys ?s) (set (map fst d)) \<noteq> None \<longrightarrow> snd (make_key d ?s) = ?s"
    by (auto simp: make_key_old)
  have 4: "keys ?s \<subseteq>\<^sub>f keys (make_keys (ds @ es) self0)"
    by (simp add: fmsubset_alt_def fmpred_iff make_keys_append make_keys_lookup_mono)
  from 1 2 3 4 show ?thesis by blast
qed

theorem keys_ids_contiguous_witness:
  "keys ex_loader = fmempty \<and>
   fcard (fmdom (keys (make_keys ex_rows ex_loader))) = 2 \<and>
   fset (fmran (keys (make_keys ex_rows ex_loader))) = {0..<2} \<and>
   fmlookup (keys (make_keys ex_rows ex_loader)) (set (map fst (node_data ex_node))) = Some 0 \<and>
   snd (make_key (node_data ex_node) (make_keys ex_rows ex_loader)) =
     make_keys ex_rows ex_loader \<and>
   keys (make_keys ex_rows ex_loader) \<subseteq>\<^sub>f
     keys (make_keys (ex_rows @ [relationship_data ex_relation']) ex_loader)"
proof -
  have h: "keys ex_loader = fmempty"
    by (simp add: ex_loader_def)
  have c: "fcard (fmdom (keys (make_keys ex_rows ex_loader))) = 2"
    by code_simp
  have l: "fmlookup (keys (make_keys ex_rows ex_loader)) (set (map fst (node_data ex_node))) = Some 0"
    by code_simp
  note t = keys_ids_contiguous
    [OF h, of ex_rows "node_data ex_node" "[relationship_data ex_relation']"]
  from t c have "fset (fmran (keys (make_keys ex_rows ex_loader))) = {0..<2}" by simp
  moreover from t l have "snd (make_key (node_data ex_node) (make_keys ex_rows ex_loader)) =
     make_keys ex_rows ex_loader" by simp
  ultimately show ?thesis using h c l t by blast
qed

section \<open>Requests and the trace\<close>

lemma request_simps [simp]:
  "trace (snd (request c w)) = trace w @ [c]"
  "objects (snd (request c w)) = objects w"
  "fault (snd (request c w)) = fault w"
  "fst (request c w) = fault w (length (trace w)) c"
  "read_back (snd (request c w)) = read_back w"
  by (simp_all add: request_def)

lemma head_object_simps [simp]:
  "trace (snd (head_object b k w)) = trace w @ [HeadObject b k]"
  "objects (snd (head_object b k w)) = objects w"
  "fault (snd (head_object b k w)) = fault w"
  "read_back (snd (head_object b k w)) = read_back w"
  by (simp_all add: head_object_def request_def split: option.splits)

lemma head_object_result:
  "fst (head_object b k w) =
     (case fault w (length (trace w)) (HeadObject b k) of
        Some e \<Rightarrow> Inl e
      | None \<Rightarrow> (case map_of (objects w) (b, k) of
                   None \<Rightarrow> Inl (ClientError ''404'') | Some obj \<Rightarrow> Inr ()))"
  by (simp add: head_object_def request_def split: option.splits)

lemma read_csv_simps [simp]:
  "trace (snd (read_csv b k w)) = trace w @ [ReadCsv b k]"
  "objects (snd (read_csv b k w)) = objects w"
  "fault (snd (read_csv b k w)) = fault w"
  by (simp_all add: read_csv_def request_def split: option.splits)

lemma read_csv_result:
  "fst (read_csv b k w) =
     (case fault w (length (trace w)) (ReadCsv b k) of
        Some e \<Rightarrow> Inl e
      | None \<Rightarrow> (case map_of (objects w) (b, k) of
                   None \<Rightarrow> Inl (OtherError ''FileNotFoundError'')
                 | Some obj \<Rightarrow> Inr (read_back w (body obj))))"
  by (simp add: read_csv_def request_def split: option.splits)

lemma to_csv_simps [simp]:
  "trace (snd (to_csv df b k w)) = trace w @ [WriteCsv b k df]"
  "fault (snd (to_csv df b k w)) = fault w"
  by (simp_all add: to_csv_def request_def split: option.splits)

lemma to_csv_result:
  "fst (to_csv df b k w) =
     (case fault w (length (trace w)) (WriteCsv b k df) of Some e \<Rightarrow> Inl e | None \<Rightarrow> Inr ())"
  by (simp add: to_csv_def request_def split: option.splits)

lemma s3_obj_exists_snd:
  "snd (s3_obj_exists d key dir suffix b w) = snd (head_object b (dir @ suffix @ ''.csv'') w)"
  by (simp add: s3_obj_exists_def split: prod.splits sum.splits s3_error.splits)

lemma s3_obj_exists_simps [simp]:
  "trace (snd (s3_obj_exists d key dir suffix b w)) = trace w @ [HeadObject b (dir @ suffix @ ''.csv'')]"
  "objects (snd (s3_obj_exists d key dir suffix b w)) = objects w"
  "fault (snd (s3_obj_exists d key dir suffix b w)) = fault w"
  "read_back (snd (s3_obj_exists d key dir suffix b w)) = read_back w"
  by (simp_all add: s3_obj_exists_snd)

lemma s3_obj_exists_result:
  "fst (s3_obj_exists d key dir suffix b w) =
     (case fst (head_object b (dir @ suffix @ ''.csv'') w) of
        Inr u \<Rightarrow> Inr (Some True)
      | Inl (ClientError code) \<Rightarrow> (if code = ''404'' then Inr (Some False) else Inr None)
      | Inl (OtherError x) \<Rightarrow> Inl (OtherError x))"
  by (simp add: s3_obj_exists_def split: prod.splits sum.splits s3_error.splits)

text \<open>The requests of one \<open>_get_s3_object\<close> call: what they are, case by case.\<close>

lemma get_s3_object_requests:
  "\<exists>evs. trace (snd (get_s3_object d key b p s w)) = trace w @ HeadObject b (p @ s @ ''.csv'') # evs \<and>
         list_all (row_request b (p @ s @ ''.csv'')) evs \<and>
         (fst (get_s3_object d key b p s w) = Inr () \<longrightarrow>
            (\<exists>df. WriteCsv b (p @ s @ ''.csv'') df \<in> set evs))"
proof -
  let ?k = "p @ s @ ''.csv''"
  obtain r w1 where e: "s3_obj_exists d key p s b w = (r, w1)"
    by (cases "s3_obj_exists d key p s b w") auto
  then have t1: "trace w1 = trace w @ [HeadObject b ?k]"
    using s3_obj_exists_simps(1) [of d key p s b w] by simp
  show ?thesis
  proof (cases r)
    case (Inl err)
    with e t1 show ?thesis by (simp add: get_s3_object_def)
  next
    case (Inr ex)
    show ?thesis
    proof (cases "ex = Some True")
      case True
      obtain r2 w2 where rd: "read_csv b ?k w1 = (r2, w2)"
        by (cases "read_csv b ?k w1") auto
      then have t2: "trace w2 = trace w1 @ [ReadCsv b ?k]"
        using read_csv_simps(1) [of b ?k w1] by simp
      show ?thesis
      proof (cases r2)
        case (Inl err)
        with e Inr True rd t1 t2 show ?thesis by (simp add: get_s3_object_def)
      next
        case (Inr df)
        with e \<open>r = Inr ex\<close> True rd t1 t2 show ?thesis
          by (simp add: get_s3_object_def)
      qed
    next
      case False
      with e Inr t1 show ?thesis by (simp add: get_s3_object_def)
    qed
  qed
qed

lemma get_s3_object_fault [simp]: "fault (snd (get_s3_object d key b p s w)) = fault w"
proof -
  obtain r w1 where e: "s3_obj_exists d key p s b w = (r, w1)"
    by (cases "s3_obj_exists d key p s b w") auto
  then have f1: "fault w1 = fault w"
    using s3_obj_exists_simps(3) [of d key p s b w] by simp
  obtain r2 w2 where rd: "read_csv b (p @ s @ ''.csv'') w1 = (r2, w2)"
    by (cases "read_csv b (p @ s @ ''.csv'') w1") auto
  then have f2: "fault w2 = fault w1"
    using read_csv_simps(3) [of b "p @ s @ ''.csv''" w1] by simp
  from e rd f1 f2 show ?thesis
    by (cases r; cases r2) (simp_all add: get_s3_object_def)
qed

text \<open>The object is absent and the service says so: one write, of the row alone.\<close>

lemma get_s3_object_absent:
  assumes "fault w (length (trace w)) (HeadObject b (p @ s @ ''.csv'')) = None"
    and "map_of (objects w) (b, p @ s @ ''.csv'') = None"
  shows "trace (snd (get_s3_object d key b p s w)) =
           trace w @ [HeadObject b (p @ s @ ''.csv''), WriteCsv b (p @ s @ ''.csv'') (from_records d)]"
proof -
  from assms have "fst (head_object b (p @ s @ ''.csv'') w) = Inl (ClientError ''404'')"
    by (simp add: head_object_result)
  then have "fst (s3_obj_exists d key p s b w) = Inr (Some False)"
    by (simp add: s3_obj_exists_result)
  moreover have "trace (snd (s3_obj_exists d key p s b w)) = trace w @ [HeadObject b (p @ s @ ''.csv'')]"
    by simp
  ultimately show ?thesis
    by (cases "s3_obj_exists d key p s b w") (simp add: get_s3_object_def)
qed

text \<open>The object is there and is read: one read, then one write of the table with the row added.\<close>

lemma get_s3_object_present:
  assumes "fault w (length (trace w)) (HeadObject b (p @ s @ ''.csv'')) = None"
    and "map_of (objects w) (b, p @ s @ ''.csv'') = Some obj"
    and "fault w (Suc (length (trace w))) (ReadCsv b (p @ s @ ''.csv'')) = None"
  shows "trace (snd (get_s3_object d key b p s w)) =
           trace w @ [HeadObject b (p @ s @ ''.csv''), ReadCsv b (p @ s @ ''.csv''),
             WriteCsv b (p @ s @ ''.csv'')
               (df_append (read_back w (body obj)) (from_records d))]"
proof -
  let ?k = "p @ s @ ''.csv''"
  obtain r w1 where e: "s3_obj_exists d key p s b w = (r, w1)"
    by (cases "s3_obj_exists d key p s b w") auto
  from assms(1,2) have "fst (head_object b ?k w) = Inr ()"
    by (simp add: head_object_result)
  then have "fst (s3_obj_exists d key p s b w) = Inr (Some True)"
    by (simp add: s3_obj_exists_result)
  with e have r: "r = Inr (Some True)" by simp
  from e have w1: "trace w1 = trace w @ [HeadObject b ?k]" "objects w1 = objects w"
    "fault w1 = fault w" "read_back w1 = read_back w"
    using s3_obj_exists_simps [of d key p s b w] by simp_all
  obtain r2 w2 where rd: "read_csv b ?k w1 = (r2, w2)"
    by (cases "read_csv b ?k w1") auto
  from w1 assms(2,3) have "fst (read_csv b ?k w1) = Inr (read_back w (body obj))"
    by (simp add: read_csv_result)
  with rd have r2: "r2 = Inr (read_back w (body obj))" by simp
  from rd have w2: "trace w2 = trace w1 @ [ReadCsv b ?k]"
    using read_csv_simps(1) [of b ?k w1] by simp
  from e r rd r2 w1 w2 show ?thesis
    by (simp add: get_s3_object_def)
qed

lemma put_acl_simps [simp]:
  "trace (snd (put_acl b k a w)) = trace w @ [PutAcl b k a]"
  "fault (snd (put_acl b k a w)) = fault w"
  by (simp_all add: put_acl_def request_def split: option.splits)

lemma put_acls_requests:
  "\<exists>n\<le>length ks.
     trace (snd (put_acls b ks w)) = trace w @ map (\<lambda>k. PutAcl b k ''public-read'') (take n ks) \<and>
     (fst (put_acls b ks w) = Inr () \<longrightarrow> n = length ks)"
proof (induction ks arbitrary: w)
  case Nil
  then show ?case by simp
next
  case (Cons k ks)
  obtain r w1 where p: "put_acl b k ''public-read'' w = (r, w1)"
    by (cases "put_acl b k ''public-read'' w") auto
  then have t1: "trace w1 = trace w @ [PutAcl b k ''public-read'']"
    using put_acl_simps(1) [of b k "''public-read''" w] by simp
  show ?case
  proof (cases r)
    case (Inl e)
    with p t1 have "trace (snd (put_acls b (k # ks) w)) =
        trace w @ map (\<lambda>k. PutAcl b k ''public-read'') (take 1 (k # ks))"
      and "fst (put_acls b (k # ks) w) \<noteq> Inr ()"
      by simp_all
    then show ?thesis by (intro exI [of _ 1]) simp
  next
    case (Inr u)
    from Cons.IH [of w1] obtain n where n: "n \<le> length ks"
      "trace (snd (put_acls b ks w1)) =
         trace w1 @ map (\<lambda>k. PutAcl b k ''public-read'') (take n ks)"
      "fst (put_acls b ks w1) = Inr () \<longrightarrow> n = length ks"
      by blast
    with p Inr t1 show ?thesis by (intro exI [of _ "Suc n"]) simp
  qed
qed

lemma put_acls_fault [simp]: "fault (snd (put_acls b ks w)) = fault w"
proof (induction ks arbitrary: w)
  case Nil
  then show ?case by simp
next
  case (Cons k ks)
  obtain r w1 where p: "put_acl b k ''public-read'' w = (r, w1)"
    by (cases "put_acl b k ''public-read'' w") auto
  then have "fault w1 = fault w"
    using put_acl_simps(2) [of b k "''public-read''" w] by simp
  with p Cons.IH [of w1] show ?case by (cases r) simp_all
qed

lemma listing_request [simp]: "listing b p (snd (request c w)) = listing b p w"
  by (simp add: listing_def)

text \<open>
  The requests of \<open>update_acls\<close>: the listing, then one ACL update for each listed key,
  in order, up to the first that fails.
\<close>

lemma update_acls_requests:
  "\<exists>n\<le>length (listing b p w).
     trace (snd (update_acls b p w)) =
       trace w @ ListObjects b p # map (\<lambda>k. PutAcl b k ''public-read'') (take n (listing b p w)) \<and>
     (fst (update_acls b p w) = Inr () \<longrightarrow> n = length (listing b p w))"
proof (cases "fault w (length (trace w)) (ListObjects b p)")
  case (Some e)
  then have "trace (snd (update_acls b p w)) = trace w @ [ListObjects b p]"
    and "fst (update_acls b p w) \<noteq> Inr ()"
    by (simp_all add: update_acls_def list_objects_def request_def)
  then show ?thesis by (intro exI [of _ 0]) simp
next
  case None
  let ?w1 = "snd (request (ListObjects b p) w)"
  from None have u: "update_acls b p w = put_acls b (listing b p w) ?w1"
    by (simp add: update_acls_def list_objects_def request_def listing_def)
  from put_acls_requests [of "listing b p w" b ?w1] show ?thesis
    unfolding u by simp
qed

lemma update_acls_fault [simp]: "fault (snd (update_acls b p w)) = fault w"
  by (cases "fault w (length (trace w)) (ListObjects b p)")
    (simp_all add: update_acls_def list_objects_def request_def)

lemma row_request_kind: "row_request b k c \<Longrightarrow> \<not> is_list c \<and> \<not> is_put_acl c"
  by (cases c) simp_all

section \<open>The two loops\<close>

text \<open>One turn of each loop, with the pairs taken apart.\<close>

lemma load_nodes_Cons:
  "load_nodes sn (n # ns) self w =
     (let s1 = snd (make_key (sn n) self);
          g = get_s3_object (sn n) (label n, fst (make_key (sn n) self))
                (s3_bucket self) (node_s3_prefix self)
                (label n @ ''_'' @ str (fst (make_key (sn n) self))) w
      in case fst g of
           Inl e \<Rightarrow> (Inl e, s1, snd g)
         | Inr u \<Rightarrow> load_nodes sn ns s1 (snd g))"
  by (simp add: split_beta Let_def split: prod.splits sum.splits)

lemma load_relations_Cons:
  "load_relations sr (r # rs) self w =
     (let s1 = snd (make_key (sr r) self);
          g = get_s3_object (sr r)
                (start_label r, end_label r, type r, fst (make_key (sr r) self))
                (s3_bucket self) (relation_s3_prefix self)
                (start_label r @ ''_'' @ end_label r @ ''_'' @ type r) w
      in case fst g of
           Inl e \<Rightarrow> (Inl e, s1, snd g)
         | Inr u \<Rightarrow> load_relations sr rs s1 (snd g))"
  by (simp add: split_beta Let_def split: prod.splits sum.splits)

declare load_nodes.simps(2) [simp del]
declare load_relations.simps(2) [simp del]

lemma load_nodes_config [simp]:
  "s3_bucket (fst (snd (load_nodes sn ns self w))) = s3_bucket self"
  "node_s3_prefix (fst (snd (load_nodes sn ns self w))) = node_s3_prefix self"
  "relation_s3_prefix (fst (snd (load_nodes sn ns self w))) = relation_s3_prefix self"
  by (induction ns arbitrary: self w; simp add: load_nodes_Cons Let_def split: sum.splits)+

lemma load_nodes_lookup_mono:
  "fmlookup (keys self) k = Some v \<Longrightarrow>
     fmlookup (keys (fst (snd (load_nodes sn ns self w)))) k = Some v"
  by (induction ns arbitrary: self w)
    (simp_all add: load_nodes_Cons Let_def make_key_lookup_mono split: sum.splits)

lemma load_nodes_fault [simp]: "fault (snd (snd (load_nodes sn ns self w))) = fault w"
  by (induction ns arbitrary: self w)
    (simp_all add: load_nodes_Cons Let_def split: sum.splits)

lemma load_relations_fault [simp]: "fault (snd (snd (load_relations sr rs self w))) = fault w"
  by (induction rs arbitrary: self w)
    (simp_all add: load_relations_Cons Let_def split: sum.splits)

lemma requests_since_append: "trace w' = trace w @ evs \<Longrightarrow> requests_since w w' = evs"
  by (simp add: requests_since_def)

text \<open>
  Every request of the node loop is the existence check, the read or the write of the
  object whose key is made of the node prefix, the label of one of the nodes and the
  number that \<open>_keys\<close> holds for that node's columns; when the loop ends without an
  exception, every node has had its write.
\<close>

lemma load_nodes_requests:
  "\<exists>evs. trace (snd (snd (load_nodes sn ns self w))) = trace w @ evs \<and>
     (\<forall>c\<in>set evs. \<exists>n\<in>set ns. \<exists>sig.
        fmlookup (keys (fst (snd (load_nodes sn ns self w)))) (set (map fst (sn n))) = Some sig \<and>
        row_request (s3_bucket self) (node_object_key (node_s3_prefix self) (label n) sig) c) \<and>
     (fst (load_nodes sn ns self w) = Inr () \<longrightarrow>
        (\<forall>n\<in>set ns. \<exists>sig df.
           fmlookup (keys (fst (snd (load_nodes sn ns self w)))) (set (map fst (sn n))) = Some sig \<and>
           WriteCsv (s3_bucket self) (node_object_key (node_s3_prefix self) (label n) sig) df
             \<in> set evs))"
proof (induction ns arbitrary: self w)
  case Nil
  then show ?case by simp
next
  case (Cons n ns)
  let ?sig = "fst (make_key (sn n) self)"
  let ?s1 = "snd (make_key (sn n) self)"
  let ?sfx = "label n @ ''_'' @ str ?sig"
  let ?key = "node_object_key (node_s3_prefix self) (label n) ?sig"
  let ?g = "get_s3_object (sn n) (label n, ?sig) (s3_bucket self) (node_s3_prefix self) ?sfx w"
  let ?b = "s3_bucket self"
  have key: "node_s3_prefix self @ ?sfx @ ''.csv'' = ?key"
    by (simp add: node_object_key_def)
  from get_s3_object_requests [of "sn n" "(label n, ?sig)" ?b "node_s3_prefix self" ?sfx w]
  obtain evs1 where g: "trace (snd ?g) = trace w @ HeadObject ?b ?key # evs1"
    "list_all (row_request ?b ?key) evs1"
    "fst ?g = Inr () \<longrightarrow> (\<exists>df. WriteCsv ?b ?key df \<in> set evs1)"
    unfolding key by blast
  have rec: "fmlookup (keys ?s1) (set (map fst (sn n))) = Some ?sig"
    by (rule make_key_recorded)
  have first: "\<forall>c\<in>set (HeadObject ?b ?key # evs1). row_request ?b ?key c"
    using g(2) by (simp add: list_all_iff)
  show ?case
  proof (cases "fst ?g")
    case (Inl e)
    then have l: "load_nodes sn (n # ns) self w = (Inl e, ?s1, snd ?g)"
      by (simp add: load_nodes_Cons Let_def)
    have "\<forall>c\<in>set (HeadObject ?b ?key # evs1). \<exists>m\<in>set (n # ns). \<exists>sig.
        fmlookup (keys ?s1) (set (map fst (sn m))) = Some sig \<and>
        row_request ?b (node_object_key (node_s3_prefix self) (label m) sig) c"
      using first rec by (metis list.set_intros(1))
    with g(1) show ?thesis unfolding l by (intro exI [of _ "HeadObject ?b ?key # evs1"]) simp
  next
    case (Inr u)
    then have l: "load_nodes sn (n # ns) self w = load_nodes sn ns ?s1 (snd ?g)"
      by (simp add: load_nodes_Cons Let_def)
    let ?fin = "fst (snd (load_nodes sn ns ?s1 (snd ?g)))"
    from Cons.IH [of ?s1 "snd ?g"]
    obtain evs2 where ih: "trace (snd (snd (load_nodes sn ns ?s1 (snd ?g)))) = trace (snd ?g) @ evs2"
      "\<forall>c\<in>set evs2. \<exists>m\<in>set ns. \<exists>sig.
         fmlookup (keys ?fin) (set (map fst (sn m))) = Some sig \<and>
         row_request ?b (node_object_key (node_s3_prefix self) (label m) sig) c"
      "fst (load_nodes sn ns ?s1 (snd ?g)) = Inr () \<longrightarrow>
         (\<forall>m\<in>set ns. \<exists>sig df.
            fmlookup (keys ?fin) (set (map fst (sn m))) = Some sig \<and>
            WriteCsv ?b (node_object_key (node_s3_prefix self) (label m) sig) df \<in> set evs2)"
      by auto
    have rec': "fmlookup (keys ?fin) (set (map fst (sn n))) = Some ?sig"
      using rec by (rule load_nodes_lookup_mono)
    let ?evs = "HeadObject ?b ?key # evs1 @ evs2"
    have 1: "trace (snd (snd (load_nodes sn ns ?s1 (snd ?g)))) = trace w @ ?evs"
      using ih(1) g(1) by simp
    have 2: "\<exists>m\<in>set (n # ns). \<exists>sig.
        fmlookup (keys ?fin) (set (map fst (sn m))) = Some sig \<and>
        row_request ?b (node_object_key (node_s3_prefix self) (label m) sig) c"
      if "c \<in> set ?evs" for c
    proof (cases "c \<in> set (HeadObject ?b ?key # evs1)")
      case True
      with first have "row_request ?b ?key c" by blast
      with rec' show ?thesis by (metis list.set_intros(1))
    next
      case False
      with that have "c \<in> set evs2" by auto
      with ih(2) show ?thesis by (metis list.set_intros(2))
    qed
    have 3: "\<exists>sig df. fmlookup (keys ?fin) (set (map fst (sn m))) = Some sig \<and>
        WriteCsv ?b (node_object_key (node_s3_prefix self) (label m) sig) df \<in> set ?evs"
      if ok: "fst (load_nodes sn ns ?s1 (snd ?g)) = Inr ()" and m: "m \<in> set (n # ns)" for m
    proof (cases "m \<in> set ns")
      case True
      with ih(3) ok obtain sig df where
        "fmlookup (keys ?fin) (set (map fst (sn m))) = Some sig"
        "WriteCsv ?b (node_object_key (node_s3_prefix self) (label m) sig) df \<in> set evs2"
        by blast
      then show ?thesis by auto
    next
      case False
      with m have mn: "m = n" by simp
      from g(3) Inr obtain df where "WriteCsv ?b ?key df \<in> set evs1" by auto
      with rec' show ?thesis unfolding mn by auto
    qed
    from 1 2 3 show ?thesis unfolding l by (intro exI [of _ ?evs]) blast
  qed
qed

text \<open>
  Every request of the relationship loop is the existence check, the read or the write
  of the object whose key is made of the relationship prefix and the two labels and the
  type of one of the relationships.
\<close>

lemma load_relations_requests:
  "\<exists>evs. trace (snd (snd (load_relations sr rs self w))) = trace w @ evs \<and>
     (\<forall>c\<in>set evs. \<exists>r\<in>set rs.
        row_request (s3_bucket self)
          (relation_s3_prefix self @ start_label r @ ''_'' @ end_label r @ ''_'' @ type r @ ''.csv'')
          c)"
proof (induction rs arbitrary: self w)
  case Nil
  then show ?case by simp
next
  case (Cons r rs)
  let ?s1 = "snd (make_key (sr r) self)"
  let ?sfx = "start_label r @ ''_'' @ end_label r @ ''_'' @ type r"
  let ?key = "relation_s3_prefix self @ ?sfx @ ''.csv''"
  let ?b = "s3_bucket self"
  let ?k2 = "(start_label r, end_label r, type r, fst (make_key (sr r) self))"
  let ?g = "get_s3_object (sr r) ?k2 ?b (relation_s3_prefix self) ?sfx w"
  from get_s3_object_requests [of "sr r" ?k2 ?b "relation_s3_prefix self" ?sfx w]
  obtain evs1 where g: "trace (snd ?g) = trace w @ HeadObject ?b ?key # evs1"
    "list_all (row_request ?b ?key) evs1"
    by blast
  have first: "\<forall>c\<in>set (HeadObject ?b ?key # evs1). row_request ?b ?key c"
    using g(2) by (simp add: list_all_iff)
  have key: "?key = relation_s3_prefix self @ start_label r @ ''_'' @ end_label r @ ''_'' @ type r @ ''.csv''"
    by simp
  show ?case
  proof (cases "fst ?g")
    case (Inl e)
    then have l: "load_relations sr (r # rs) self w = (Inl e, ?s1, snd ?g)"
      by (simp add: load_relations_Cons Let_def)
    from first g(1) show ?thesis
      unfolding l key by (intro exI [of _ "HeadObject ?b ?key # evs1"]) simp
  next
    case (Inr u)
    then have l: "load_relations sr (r # rs) self w = load_relations sr rs ?s1 (snd ?g)"
      by (simp add: load_relations_Cons Let_def)
    from Cons.IH [of ?s1 "snd ?g"]
    obtain evs2 where ih:
      "trace (snd (snd (load_relations sr rs ?s1 (snd ?g)))) = trace (snd ?g) @ evs2"
      "\<forall>c\<in>set evs2. \<exists>q\<in>set rs. row_request ?b
          (relation_s3_prefix self @ start_label q @ ''_'' @ end_label q @ ''_'' @ type q @ ''.csv'') c"
      by auto
    let ?evs = "HeadObject ?b ?key # evs1 @ evs2"
    have 1: "trace (snd (snd (load_relations sr rs ?s1 (snd ?g)))) = trace w @ ?evs"
      using ih(1) g(1) by simp
    have 2: "\<exists>q\<in>set (r # rs). row_request ?b
          (relation_s3_prefix self @ start_label q @ ''_'' @ end_label q @ ''_'' @ type q @ ''.csv'') c"
      if "c \<in> set ?evs" for c
    proof (cases "c \<in> set (HeadObject ?b ?key # evs1)")
      case True
      with first have "row_request ?b ?key c" by blast
      then show ?thesis unfolding key by (metis list.set_intros(1))
    next
      case False
      with that have "c \<in> set evs2" by auto
      with ih(2) show ?thesis by (metis list.set_intros(2))
    qed
    from 1 2 show ?thesis unfolding l by (intro exI [of _ ?evs]) blast
  qed
qed

section \<open>The phases of load\<close>

lemma load_unfold:
  "load sn sr r self w =
     (let s1 = fst (snd (load_nodes sn (nodes r) self w));
          w1 = snd (snd (load_nodes sn (nodes r) self w));
          a = update_acls (s3_bucket self) (node_s3_prefix self) w1
      in case fst (load_nodes sn (nodes r) self w) of
           Inl e \<Rightarrow> (Inl e, s1, w1)
         | Inr u \<Rightarrow>
             (case fst a of
                Inl e \<Rightarrow> (Inl e, s1, snd a)
              | Inr u' \<Rightarrow> load_relations sr (relations r) s1 (snd a)))"
proof -
  obtain r1 s1 w1 where n: "load_nodes sn (nodes r) self w = (r1, s1, w1)"
    by (cases "load_nodes sn (nodes r) self w") auto
  then have c: "s3_bucket s1 = s3_bucket self" "node_s3_prefix s1 = node_s3_prefix self"
    using load_nodes_config [of sn "nodes r" self w] by simp_all
  obtain r2 w2 where a: "update_acls (s3_bucket self) (node_s3_prefix self) w1 = (r2, w2)"
    by (cases "update_acls (s3_bucket self) (node_s3_prefix self) w1") auto
  show ?thesis
    by (cases r1; cases r2) (simp_all add: load_def n a c Let_def)
qed

lemma nodes_requests_trace:
  "trace (snd (snd (load_nodes sn ns self w))) = trace w @ nodes_requests sn ns self w"
proof -
  from load_nodes_requests [of sn ns self w]
  obtain evs where "trace (snd (snd (load_nodes sn ns self w))) = trace w @ evs" by blast
  then show ?thesis by (simp add: nodes_requests_def requests_since_def)
qed

lemma acls_requests_trace:
  "trace (snd (update_acls (s3_bucket self) (node_s3_prefix self)
            (snd (snd (load_nodes sn (nodes r) self w))))) =
     trace (snd (snd (load_nodes sn (nodes r) self w))) @ acls_requests sn r self w"
proof -
  let ?w1 = "snd (snd (load_nodes sn (nodes r) self w))"
  from update_acls_requests [of "s3_bucket self" "node_s3_prefix self" ?w1]
  obtain evs where "trace (snd (update_acls (s3_bucket self) (node_s3_prefix self) ?w1)) =
      trace ?w1 @ evs" by blast
  then show ?thesis by (simp add: acls_requests_def requests_since_def Let_def)
qed

lemma relations_requests_trace:
  "trace (snd (snd (load_relations sr (relations r)
       (fst (snd (load_nodes sn (nodes r) self w)))
       (snd (update_acls (s3_bucket self) (node_s3_prefix self)
              (snd (snd (load_nodes sn (nodes r) self w)))))))) =
     trace (snd (update_acls (s3_bucket self) (node_s3_prefix self)
              (snd (snd (load_nodes sn (nodes r) self w))))) @
       relations_requests sn sr r self w"
proof -
  let ?s1 = "fst (snd (load_nodes sn (nodes r) self w))"
  let ?w2 = "snd (update_acls (s3_bucket self) (node_s3_prefix self)
              (snd (snd (load_nodes sn (nodes r) self w))))"
  from load_relations_requests [of sr "relations r" ?s1 ?w2]
  obtain evs where "trace (snd (snd (load_relations sr (relations r) ?s1 ?w2))) = trace ?w2 @ evs"
    by blast
  then show ?thesis by (simp add: relations_requests_def requests_since_def Let_def)
qed

text \<open>
  The requests of \<open>load\<close> are those of the node loop, then, if that loop ended without
  an exception, those of the ACL pass, then, if the pass ended without one, those of the
  relationship loop.
\<close>

lemma load_requests_split:
  "load_requests sn sr r self w =
     nodes_requests sn (nodes r) self w @
     (if fst (load_nodes sn (nodes r) self w) = Inr () then
        acls_requests sn r self w @
        (if fst (update_acls (s3_bucket self) (node_s3_prefix self)
                   (snd (snd (load_nodes sn (nodes r) self w)))) = Inr ()
         then relations_requests sn sr r self w else [])
      else [])"
proof -
  let ?n = "load_nodes sn (nodes r) self w"
  let ?a = "update_acls (s3_bucket self) (node_s3_prefix self) (snd (snd ?n))"
  let ?l = "load_relations sr (relations r) (fst (snd ?n)) (snd ?a)"
  note t1 = nodes_requests_trace [of sn "nodes r" self w]
  note t2 = acls_requests_trace [of self sn r w]
  note t3 = relations_requests_trace [of sr r sn self w]
  show ?thesis
  proof (cases "fst ?n")
    case (Inl e)
    then have "snd (snd (load sn sr r self w)) = snd (snd ?n)"
      by (simp add: load_unfold Let_def)
    with Inl t1 show ?thesis
      by (simp add: load_requests_def requests_since_def)
  next
    case n: (Inr u)
    show ?thesis
    proof (cases "fst ?a")
      case (Inl e)
      with n have "snd (snd (load sn sr r self w)) = snd ?a"
        by (simp add: load_unfold Let_def)
      with n Inl t1 t2 show ?thesis
        by (simp add: load_requests_def requests_since_def)
    next
      case (Inr u')
      with n have "snd (snd (load sn sr r self w)) = snd (snd ?l)"
        by (simp add: load_unfold Let_def)
      with n Inr t1 t2 t3 show ?thesis
        by (simp add: load_requests_def requests_since_def)
    qed
  qed
qed

lemma acls_requests_shape:
  "\<exists>n\<le>length (listing (s3_bucket self) (node_s3_prefix self)
                  (snd (snd (load_nodes sn (nodes r) self w)))).
     acls_requests sn r self w =
       ListObjects (s3_bucket self) (node_s3_prefix self) #
       map (\<lambda>k. PutAcl (s3_bucket self) k ''public-read'')
         (take n (listing (s3_bucket self) (node_s3_prefix self)
                    (snd (snd (load_nodes sn (nodes r) self w))))) \<and>
     (fst (update_acls (s3_bucket self) (node_s3_prefix self)
             (snd (snd (load_nodes sn (nodes r) self w)))) = Inr () \<longrightarrow>
        n = length (listing (s3_bucket self) (node_s3_prefix self)
                      (snd (snd (load_nodes sn (nodes r) self w)))))"
proof -
  let ?w1 = "snd (snd (load_nodes sn (nodes r) self w))"
  from update_acls_requests [of "s3_bucket self" "node_s3_prefix self" ?w1]
  obtain n where n: "n \<le> length (listing (s3_bucket self) (node_s3_prefix self) ?w1)"
    "trace (snd (update_acls (s3_bucket self) (node_s3_prefix self) ?w1)) =
       trace ?w1 @ ListObjects (s3_bucket self) (node_s3_prefix self) #
         map (\<lambda>k. PutAcl (s3_bucket self) k ''public-read'')
           (take n (listing (s3_bucket self) (node_s3_prefix self) ?w1))"
    "fst (update_acls (s3_bucket self) (node_s3_prefix self) ?w1) = Inr () \<longrightarrow>
       n = length (listing (s3_bucket self) (node_s3_prefix self) ?w1)"
    by blast
  from n(2) have "acls_requests sn r self w =
       ListObjects (s3_bucket self) (node_s3_prefix self) #
         map (\<lambda>k. PutAcl (s3_bucket self) k ''public-read'')
           (take n (listing (s3_bucket self) (node_s3_prefix self) ?w1))"
    by (simp add: acls_requests_def requests_since_def Let_def)
  with n(1,3) show ?thesis by blast
qed

lemma nodes_requests_rows:
  "c \<in> set (nodes_requests sn ns self w) \<Longrightarrow> \<not> is_list c \<and> \<not> is_put_acl c"
proof -
  assume c: "c \<in> set (nodes_requests sn ns self w)"
  from load_nodes_requests [of sn ns self w]
  obtain evs where e: "trace (snd (snd (load_nodes sn ns self w))) = trace w @ evs"
    "\<forall>c\<in>set evs. \<exists>n\<in>set ns. \<exists>sig.
        fmlookup (keys (fst (snd (load_nodes sn ns self w)))) (set (map fst (sn n))) = Some sig \<and>
        row_request (s3_bucket self) (node_object_key (node_s3_prefix self) (label n) sig) c"
    by blast
  from e(1) have "nodes_requests sn ns self w = evs"
    by (simp add: nodes_requests_def requests_since_def)
  with c e(2) show ?thesis by (metis row_request_kind)
qed

lemma relations_requests_rows:
  "c \<in> set (relations_requests sn sr r self w) \<Longrightarrow> \<not> is_list c \<and> \<not> is_put_acl c"
proof -
  let ?s1 = "fst (snd (load_nodes sn (nodes r) self w))"
  let ?w2 = "snd (update_acls (s3_bucket self) (node_s3_prefix self)
              (snd (snd (load_nodes sn (nodes r) self w))))"
  assume c: "c \<in> set (relations_requests sn sr r self w)"
  from load_relations_requests [of sr "relations r" ?s1 ?w2]
  obtain evs where e: "trace (snd (snd (load_relations sr (relations r) ?s1 ?w2))) = trace ?w2 @ evs"
    "\<forall>c\<in>set evs. \<exists>q\<in>set (relations r). row_request (s3_bucket ?s1)
        (relation_s3_prefix ?s1 @ start_label q @ ''_'' @ end_label q @ ''_'' @ type q @ ''.csv'') c"
    by blast
  from e(1) have "relations_requests sn sr r self w = evs"
    by (simp add: relations_requests_def requests_since_def Let_def)
  with c e(2) show ?thesis by (metis row_request_kind)
qed

section \<open>What the store holds\<close>

lemma map_of_put_object:
  "map_of (put_object k v al) x = (if x = k then Some v else map_of al x)"
  by (induction al) auto

lemma to_csv_stored:
  "fault w (length (trace w)) (WriteCsv b k df) = None \<Longrightarrow>
     map_of (objects (snd (to_csv df b k w))) (b, k) = Some \<lparr>body = df, acl = ''private''\<rparr>"
  by (simp add: to_csv_def request_def map_of_put_object)

text \<open>An ACL update changes no table.\<close>

lemma put_acl_body:
  "map_option body (map_of (objects (snd (put_acl b k a w))) x) =
     map_option body (map_of (objects w) x)"
  by (auto simp: put_acl_def request_def map_of_put_object split: option.splits)

lemma put_acls_body:
  "map_option body (map_of (objects (snd (put_acls b ks w))) x) =
     map_option body (map_of (objects w) x)"
proof (induction ks arbitrary: w)
  case Nil
  then show ?case by simp
next
  case (Cons k ks)
  obtain r w1 where p: "put_acl b k ''public-read'' w = (r, w1)"
    by (cases "put_acl b k ''public-read'' w") auto
  then have "map_option body (map_of (objects w1) x) = map_option body (map_of (objects w) x)"
    using put_acl_body [of b k "''public-read''" w x] by simp
  with p Cons.IH [of w1] show ?case by (cases r) simp_all
qed

lemma update_acls_body:
  "map_option body (map_of (objects (snd (update_acls b p w))) x) =
     map_option body (map_of (objects w) x)"
  by (cases "fault w (length (trace w)) (ListObjects b p)")
    (simp_all add: update_acls_def list_objects_def request_def put_acls_body)

lemma get_s3_object_absent_stored:
  assumes "fault w (length (trace w)) (HeadObject b (p @ s @ ''.csv'')) = None"
    and "map_of (objects w) (b, p @ s @ ''.csv'') = None"
    and "fault w (Suc (length (trace w))) (WriteCsv b (p @ s @ ''.csv'') (from_records d)) = None"
  shows "map_of (objects (snd (get_s3_object d key b p s w))) (b, p @ s @ ''.csv'') =
           Some \<lparr>body = from_records d, acl = ''private''\<rparr>"
proof -
  let ?k = "p @ s @ ''.csv''"
  obtain r w1 where e: "s3_obj_exists d key p s b w = (r, w1)"
    by (cases "s3_obj_exists d key p s b w") auto
  from assms(1,2) have "fst (head_object b ?k w) = Inl (ClientError ''404'')"
    by (simp add: head_object_result)
  then have "fst (s3_obj_exists d key p s b w) = Inr (Some False)"
    by (simp add: s3_obj_exists_result)
  with e have r: "r = Inr (Some False)" by simp
  from e have w1: "trace w1 = trace w @ [HeadObject b ?k]" "fault w1 = fault w"
    using s3_obj_exists_simps [of d key p s b w] by simp_all
  from w1 assms(3) have "fault w1 (length (trace w1)) (WriteCsv b ?k (from_records d)) = None"
    by simp
  then have "map_of (objects (snd (to_csv (from_records d) b ?k w1))) (b, ?k) =
      Some \<lparr>body = from_records d, acl = ''private''\<rparr>"
    by (rule to_csv_stored)
  with e r show ?thesis by (simp add: get_s3_object_def)
qed

lemma get_s3_object_present_stored:
  assumes "fault w (length (trace w)) (HeadObject b (p @ s @ ''.csv'')) = None"
    and "map_of (objects w) (b, p @ s @ ''.csv'') = Some obj"
    and "fault w (Suc (length (trace w))) (ReadCsv b (p @ s @ ''.csv'')) = None"
    and "fault w (Suc (Suc (length (trace w))))
           (WriteCsv b (p @ s @ ''.csv'')
              (df_append (read_back w (body obj)) (from_records d))) = None"
  shows "map_of (objects (snd (get_s3_object d key b p s w))) (b, p @ s @ ''.csv'') =
           Some \<lparr>body = df_append (read_back w (body obj)) (from_records d),
                 acl = ''private''\<rparr>"
proof -
  let ?k = "p @ s @ ''.csv''"
  let ?df = "df_append (read_back w (body obj)) (from_records d)"
  obtain r w1 where e: "s3_obj_exists d key p s b w = (r, w1)"
    by (cases "s3_obj_exists d key p s b w") auto
  from assms(1,2) have "fst (head_object b ?k w) = Inr ()"
    by (simp add: head_object_result)
  then have "fst (s3_obj_exists d key p s b w) = Inr (Some True)"
    by (simp add: s3_obj_exists_result)
  with e have r: "r = Inr (Some True)" by simp
  from e have w1: "trace w1 = trace w @ [HeadObject b ?k]" "objects w1 = objects w"
    "fault w1 = fault w" "read_back w1 = read_back w"
    using s3_obj_exists_simps [of d key p s b w] by simp_all
  obtain r2 w2 where rd: "read_csv b ?k w1 = (r2, w2)"
    by (cases "read_csv b ?k w1") auto
  from w1 assms(2,3) have "fst (read_csv b ?k w1) = Inr (read_back w (body obj))"
    by (simp add: read_csv_result)
  with rd have r2: "r2 = Inr (read_back w (body obj))" by simp
  from rd have w2: "trace w2 = trace w1 @ [ReadCsv b ?k]" "fault w2 = fault w1"
    using read_csv_simps [of b ?k w1] by simp_all
  from w1 w2 assms(4) have "fault w2 (length (trace w2)) (WriteCsv b ?k ?df) = None"
    by simp
  then have "map_of (objects (snd (to_csv ?df b ?k w2))) (b, ?k) =
      Some \<lparr>body = ?df, acl = ''private''\<rparr>"
    by (rule to_csv_stored)
  with e r rd r2 show ?thesis by (simp add: get_s3_object_def)
qed

text \<open>
  After \<open>load\<close> of a record of one node and no relationship, the tables of the store are
  those that the one \<open>_get_s3_object\<close> call left.
\<close>

lemma load_single_bodies:
  assumes "nodes r = [node]" and "relations r = []"
  shows "map_option body (map_of (objects (snd (snd (load sn sr r self w)))) x) =
     map_option body (map_of (objects
       (snd (get_s3_object (sn node) (label node, fst (make_key (sn node) self))
               (s3_bucket self) (node_s3_prefix self)
               (label node @ ''_'' @ str (fst (make_key (sn node) self))) w))) x)"
proof -
  let ?g = "get_s3_object (sn node) (label node, fst (make_key (sn node) self))
               (s3_bucket self) (node_s3_prefix self)
               (label node @ ''_'' @ str (fst (make_key (sn node) self))) w"
  let ?a = "update_acls (s3_bucket self) (node_s3_prefix self) (snd ?g)"
  have n: "load_nodes sn (nodes r) self w =
      (case fst ?g of Inl e \<Rightarrow> (Inl e, snd (make_key (sn node) self), snd ?g)
                    | Inr u \<Rightarrow> (Inr (), snd (make_key (sn node) self), snd ?g))"
    unfolding assms(1) by (simp add: load_nodes_Cons Let_def split: sum.splits)
  have "snd (snd (load sn sr r self w)) = (if fst ?g = Inr () then snd ?a else snd ?g)"
  proof (cases "fst ?g")
    case (Inl e)
    with n show ?thesis by (simp add: load_unfold Let_def)
  next
    case (Inr u)
    with n assms(2) show ?thesis by (simp add: load_unfold Let_def split: sum.splits)
  qed
  then show ?thesis by (simp add: update_acls_body)
qed

section \<open>Tables\<close>

lemma from_records_columns:
  "set (columns (from_records d)) = set (map fst d)"
  "length (columns (from_records d)) = length d"
  by (simp_all add: from_records_def Let_def)

lemma from_records_rows:
  "rows (from_records d) = [map (map_of d) (columns (from_records d))]"
  by (simp add: from_records_def Let_def)

text \<open>In the row of a dict, the cell of a column is the dict's value for it.\<close>

lemma cell_from_records:
  "cell (columns (from_records d)) (map (map_of d) (columns (from_records d))) c = map_of d c"
proof (cases "c \<in> set (map fst d)")
  case True
  then show ?thesis
    by (simp add: cell_def from_records_def Let_def map_of_zip_map)
next
  case False
  then have "map_of d c = None" by (simp add: map_of_eq_None_iff)
  with False show ?thesis
    by (simp add: cell_def from_records_def Let_def map_of_zip_map)
qed

lemma df_append_length:
  "length (rows (df_append df df2)) = length (rows df) + length (rows df2)"
  by (simp add: df_append_def Let_def)

lemma df_append_columns:
  "set (columns (df_append df df2)) = set (columns df) \<union> set (columns df2)"
  by (auto simp: df_append_def Let_def)

lemma df_append_last:
  "last (rows (df_append df (from_records d))) =
     map (map_of d) (columns (df_append df (from_records d)))"
proof -
  let ?cols = "columns (df_append df (from_records d))"
  have "rows (df_append df (from_records d)) =
      map (\<lambda>r. map (cell (columns df) r) ?cols) (rows df) @
      [map (cell (columns (from_records d)) (map (map_of d) (columns (from_records d)))) ?cols]"
    by (simp add: df_append_def Let_def from_records_rows)
  then show ?thesis by (simp add: cell_from_records)
qed

section \<open>Listings and prefixes\<close>

lemma listing_startswith: "k \<in> set (listing b p w) \<Longrightarrow> startswith k p"
  by (auto simp: listing_def)

text \<open>Two prefixes of one key: one is a prefix of the other.\<close>

lemma startswith_comparable:
  assumes "startswith k p" and "startswith k q"
  shows "startswith p q \<or> startswith q p"
proof (cases "length q \<le> length p")
  case True
  from assms have "take (length q) (take (length p) k) = take (length q) p"
    by (simp add: startswith_def)
  with True assms(2) have "take (length q) p = q"
    by (simp add: startswith_def min_def)
  then show ?thesis by (simp add: startswith_def)
next
  case False
  from assms have "take (length p) (take (length q) k) = take (length p) q"
    by (simp add: startswith_def)
  with False assms(1) have "take (length p) q = p"
    by (simp add: startswith_def min_def)
  then show ?thesis by (simp add: startswith_def)
qed

text \<open>
  An ACL update sets the ACL it was given, and that of no other object; so a pass that
  ends without an exception leaves every key it went through with \<open>public-read\<close>.
\<close>

lemma put_acl_acl:
  "map_option acl (map_of (objects (snd (put_acl b k a w))) x) =
     (if fst (put_acl b k a w) = Inr () \<and> x = (b, k) then Some a
      else map_option acl (map_of (objects w) x))"
  by (auto simp: put_acl_def request_def map_of_put_object split: option.splits)

lemma put_acls_keeps_public:
  "map_option acl (map_of (objects w) x) = Some ''public-read'' \<Longrightarrow>
     map_option acl (map_of (objects (snd (put_acls b ks w))) x) = Some ''public-read''"
proof (induction ks arbitrary: w)
  case Nil
  then show ?case by simp
next
  case (Cons k ks)
  let ?p = "put_acl b k ''public-read'' w"
  from Cons.prems have 1: "map_option acl (map_of (objects (snd ?p)) x) = Some ''public-read''"
    by (simp add: put_acl_acl)
  show ?case
  proof (cases "fst ?p")
    case (Inl e)
    with 1 show ?thesis by (cases ?p) simp
  next
    case (Inr u)
    with Cons.IH [OF 1] show ?thesis by (cases ?p) simp
  qed
qed

lemma put_acls_sets_public:
  "fst (put_acls b ks w) = Inr () \<Longrightarrow> k \<in> set ks \<Longrightarrow>
     map_option acl (map_of (objects (snd (put_acls b ks w))) (b, k)) = Some ''public-read''"
proof (induction ks arbitrary: w)
  case Nil
  then show ?case by simp
next
  case (Cons j ks)
  let ?p = "put_acl b j ''public-read'' w"
  from Cons.prems(1) have ok: "fst ?p = Inr ()"
    by (cases ?p; cases "fst ?p") auto
  then have step: "put_acls b (j # ks) w = put_acls b ks (snd ?p)"
    by (cases ?p) simp
  show ?case
  proof (cases "k = j")
    case True
    from ok have "map_option acl (map_of (objects (snd ?p)) (b, k)) = Some ''public-read''"
      unfolding True by (simp add: put_acl_acl)
    then show ?thesis unfolding step by (rule put_acls_keeps_public)
  next
    case False
    with Cons.prems(2) have "k \<in> set ks" by simp
    moreover from Cons.prems(1) have "fst (put_acls b ks (snd ?p)) = Inr ()"
      unfolding step .
    ultimately show ?thesis unfolding step by (rule Cons.IH [rotated])
  qed
qed

lemma update_acls_sets_public:
  assumes "fst (update_acls b p w) = Inr ()" and "k \<in> set (listing b p w)"
  shows "map_option acl (map_of (objects (snd (update_acls b p w))) (b, k)) = Some ''public-read''"
proof (cases "fault w (length (trace w)) (ListObjects b p)")
  case (Some e)
  with assms(1) show ?thesis
    by (simp add: update_acls_def list_objects_def request_def)
next
  case None
  let ?w1 = "snd (request (ListObjects b p) w)"
  from None have u: "update_acls b p w = put_acls b (listing b p ?w1) ?w1"
    by (simp add: update_acls_def list_objects_def request_def)
  have l: "listing b p ?w1 = listing b p w" by (rule listing_request)
  from assms show ?thesis unfolding u l by (rule put_acls_sets_public)
qed

lemma nodes_requests_Nil [simp]: "nodes_requests sn [] self w = []"
  by (simp add: nodes_requests_def requests_since_def)

lemma relations_requests_Nil:
  "relations r = [] \<Longrightarrow> relations_requests sn sr r self w = []"
  by (simp add: relations_requests_def requests_since_def Let_def)

lemma nodes_requests_single:
  "nodes_requests sn [node] self w =
     requests_since w
       (snd (get_s3_object (sn node) (label node, fst (make_key (sn node) self))
               (s3_bucket self) (node_s3_prefix self)
               (label node @ ''_'' @ str (fst (make_key (sn node) self))) w))"
  by (simp add: nodes_requests_def load_nodes_Cons Let_def split: sum.splits)

lemma acls_requests_no_rows:
  "filter is_read (acls_requests sn r self w) = []"
  "filter is_write (acls_requests sn r self w) = []"
proof -
  from acls_requests_shape [of self sn r w]
  obtain n where "acls_requests sn r self w =
       ListObjects (s3_bucket self) (node_s3_prefix self) #
       map (\<lambda>k. PutAcl (s3_bucket self) k ''public-read'')
         (take n (listing (s3_bucket self) (node_s3_prefix self)
                    (snd (snd (load_nodes sn (nodes r) self w)))))"
    by blast
  then show "filter is_read (acls_requests sn r self w) = []"
    and "filter is_write (acls_requests sn r self w) = []"
    by (simp_all add: filter_empty_conv)
qed

lemma acls_requests_lists:
  "filter is_list (acls_requests sn r self w) =
     [ListObjects (s3_bucket self) (node_s3_prefix self)]"
proof -
  from acls_requests_shape [of self sn r w]
  obtain n where "acls_requests sn r self w =
       ListObjects (s3_bucket self) (node_s3_prefix self) #
       map (\<lambda>k. PutAcl (s3_bucket self) k ''public-read'')
         (take n (listing (s3_bucket self) (node_s3_prefix self)
                    (snd (snd (load_nodes sn (nodes r) self w)))))"
    by blast
  then show ?thesis by (simp add: filter_empty_conv)
qed

lemma acls_requests_take:
  "acls_requests sn r self w =
     ListObjects (s3_bucket self) (node_s3_prefix self) #
     map (\<lambda>k. PutAcl (s3_bucket self) k ''public-read'')
       (take (length (acls_requests sn r self w) - 1)
          (listing (s3_bucket self) (node_s3_prefix self)
             (snd (snd (load_nodes sn (nodes r) self w)))))"
proof -
  let ?L = "listing (s3_bucket self) (node_s3_prefix self)
              (snd (snd (load_nodes sn (nodes r) self w)))"
  from acls_requests_shape [of self sn r w]
  obtain n where n: "n \<le> length ?L" "acls_requests sn r self w =
       ListObjects (s3_bucket self) (node_s3_prefix self) #
       map (\<lambda>k. PutAcl (s3_bucket self) k ''public-read'') (take n ?L)"
    by blast
  then have "length (acls_requests sn r self w) - 1 = n" by simp
  with n(2) show ?thesis by simp
qed

lemma filter_nodes_requests_lists: "filter is_list (nodes_requests sn ns self w) = []"
  using nodes_requests_rows [of _ sn ns self w] by (auto simp: filter_empty_conv)

lemma filter_relations_requests_lists: "filter is_list (relations_requests sn sr r self w) = []"
  using relations_requests_rows [of _ sn sr r self w] by (auto simp: filter_empty_conv)

section \<open>The claims about the requests of load\<close>


text \<open>Every ACL update that \<open>load\<close> makes is for a key of the listing of the node prefix.\<close>

lemma load_requests_put_acl:
  assumes "c \<in> set (load_requests sn sr r self w)" and "is_put_acl c"
  shows "\<exists>k\<in>set (listing (s3_bucket self) (node_s3_prefix self)
                   (snd (snd (load_nodes sn (nodes r) self w)))).
           c = PutAcl (s3_bucket self) k ''public-read''"
proof -
  let ?L = "listing (s3_bucket self) (node_s3_prefix self)
              (snd (snd (load_nodes sn (nodes r) self w)))"
  from acls_requests_shape [of self sn r w]
  obtain n where A: "acls_requests sn r self w =
       ListObjects (s3_bucket self) (node_s3_prefix self) #
       map (\<lambda>k. PutAcl (s3_bucket self) k ''public-read'') (take n ?L)"
    by blast
  from assms(1) have "c \<in> set (nodes_requests sn (nodes r) self w) \<or>
      c \<in> set (acls_requests sn r self w) \<or> c \<in> set (relations_requests sn sr r self w)"
    by (subst (asm) load_requests_split) (auto split: if_splits)
  with assms(2) have "c \<in> set (acls_requests sn r self w)"
    using nodes_requests_rows [of c sn "nodes r" self w]
      relations_requests_rows [of c sn sr r self w] by blast
  with assms(2) obtain k where "k \<in> set (take n ?L)" "c = PutAcl (s3_bucket self) k ''public-read''"
    unfolding A by auto
  then show ?thesis by (metis in_set_takeD)
qed


text \<open>
  C6, as amended. When the node loop of a \<open>load\<close> call ends without an exception, the
  call lists the objects of a prefix exactly once, and the prefix is the node prefix;
  when an exception ends the node loop, the call lists nothing. In the first case the
  requests before the listing are exactly those of the node loop, which made no listing
  and no ACL update; the pass is the listing followed by one \<open>public-read\<close> update for
  each listed key in order, up to the first that fails, and for every listed key when
  the pass ends without an exception, which leaves each of them with the ACL
  \<open>public-read\<close>; and the requests of the relationship loop, which
  come only when the pass ended without an exception, follow the pass and contain no
  listing and no ACL update. In every call, the relationship prefix is never listed
  unless it is the node prefix itself; every ACL update is for a key that starts with
  the node prefix; and no ACL update is for a key that starts with the relationship
  prefix unless one of the two prefixes is a prefix of the other.
\<close>

theorem acl_pass_once_after_nodes:
  "filter is_list (load_requests sn sr r self w) =
     (if fst (load_nodes sn (nodes r) self w) = Inr ()
      then [ListObjects (s3_bucket self) (node_s3_prefix self)] else []) \<and>
   (fst (load_nodes sn (nodes r) self w) = Inr () \<longrightarrow>
      takeWhile (\<lambda>c. \<not> is_list c) (load_requests sn sr r self w) =
        nodes_requests sn (nodes r) self w \<and>
      load_requests sn sr r self w =
        nodes_requests sn (nodes r) self w @ acls_requests sn r self w @
        (if fst (update_acls (s3_bucket self) (node_s3_prefix self)
                   (snd (snd (load_nodes sn (nodes r) self w)))) = Inr ()
         then relations_requests sn sr r self w else []) \<and>
      acls_requests sn r self w =
        ListObjects (s3_bucket self) (node_s3_prefix self) #
        map (\<lambda>k. PutAcl (s3_bucket self) k ''public-read'')
          (take (length (acls_requests sn r self w) - 1)
             (listing (s3_bucket self) (node_s3_prefix self)
                (snd (snd (load_nodes sn (nodes r) self w))))) \<and>
      (fst (update_acls (s3_bucket self) (node_s3_prefix self)
              (snd (snd (load_nodes sn (nodes r) self w)))) = Inr () \<longrightarrow>
         acls_requests sn r self w =
           ListObjects (s3_bucket self) (node_s3_prefix self) #
           map (\<lambda>k. PutAcl (s3_bucket self) k ''public-read'')
             (listing (s3_bucket self) (node_s3_prefix self)
                (snd (snd (load_nodes sn (nodes r) self w)))) \<and>
         (\<forall>k\<in>set (listing (s3_bucket self) (node_s3_prefix self)
                    (snd (snd (load_nodes sn (nodes r) self w)))).
            map_option acl
              (map_of
                 (objects (snd (update_acls (s3_bucket self) (node_s3_prefix self)
                                  (snd (snd (load_nodes sn (nodes r) self w))))))
                 (s3_bucket self, k)) = Some ''public-read'')) \<and>
      list_all (\<lambda>c. \<not> is_list c \<and> \<not> is_put_acl c) (nodes_requests sn (nodes r) self w) \<and>
      list_all (\<lambda>c. \<not> is_list c \<and> \<not> is_put_acl c) (relations_requests sn sr r self w)) \<and>
   (relation_s3_prefix self \<noteq> node_s3_prefix self \<longrightarrow>
      ListObjects (s3_bucket self) (relation_s3_prefix self)
        \<notin> set (load_requests sn sr r self w)) \<and>
   (\<forall>c\<in>set (load_requests sn sr r self w).
      is_put_acl c \<longrightarrow> startswith (call_key c) (node_s3_prefix self)) \<and>
   (\<not> startswith (relation_s3_prefix self) (node_s3_prefix self) \<and>
    \<not> startswith (node_s3_prefix self) (relation_s3_prefix self) \<longrightarrow>
      (\<forall>c\<in>set (load_requests sn sr r self w).
         is_put_acl c \<longrightarrow> \<not> startswith (call_key c) (relation_s3_prefix self)))"
proof -
  let ?ok = "fst (load_nodes sn (nodes r) self w) = Inr ()"
  let ?aok = "fst (update_acls (s3_bucket self) (node_s3_prefix self)
                   (snd (snd (load_nodes sn (nodes r) self w)))) = Inr ()"
  let ?L = "listing (s3_bucket self) (node_s3_prefix self)
              (snd (snd (load_nodes sn (nodes r) self w)))"
  let ?Q = "load_requests sn sr r self w"
  let ?N = "nodes_requests sn (nodes r) self w"
  let ?A = "acls_requests sn r self w"
  let ?R = "if ?aok then relations_requests sn sr r self w else []"
  have fN: "filter is_list ?N = []" by (rule filter_nodes_requests_lists)
  have fR: "filter is_list ?R = []" by (simp add: filter_relations_requests_lists)
  have fA: "filter is_list ?A = [ListObjects (s3_bucket self) (node_s3_prefix self)]"
    by (rule acls_requests_lists)
  have 1: "filter is_list ?Q =
     (if ?ok then [ListObjects (s3_bucket self) (node_s3_prefix self)] else [])"
    using fN fR fA by (subst load_requests_split) simp
  have split: "?Q = ?N @ ?A @ ?R" if ?ok
    using that by (subst load_requests_split) simp
  obtain as where A: "?A = ListObjects (s3_bucket self) (node_s3_prefix self) # as"
    using acls_requests_take [of sn r self w] by blast
  have nl: "\<forall>c\<in>set ?N. \<not> is_list c"
    using nodes_requests_rows [of _ sn "nodes r" self w] by blast
  have 2: "takeWhile (\<lambda>c. \<not> is_list c) ?Q = ?N" if ?ok
    unfolding split [OF that] A using nl by (simp add: takeWhile_append2)
  have 3: "?A = ListObjects (s3_bucket self) (node_s3_prefix self) #
      map (\<lambda>k. PutAcl (s3_bucket self) k ''public-read'') ?L" if ?aok
    using acls_requests_shape [of self sn r w] that by auto
  have acl: "map_option acl
      (map_of (objects (snd (update_acls (s3_bucket self) (node_s3_prefix self)
                               (snd (snd (load_nodes sn (nodes r) self w))))))
         (s3_bucket self, k)) = Some ''public-read''" if ?aok "k \<in> set ?L" for k
    using that by (rule update_acls_sets_public)
  have 4: "list_all (\<lambda>c. \<not> is_list c \<and> \<not> is_put_acl c) ?N"
    using nodes_requests_rows [of _ sn "nodes r" self w] by (simp add: list_all_iff)
  have 5: "list_all (\<lambda>c. \<not> is_list c \<and> \<not> is_put_acl c) (relations_requests sn sr r self w)"
    using relations_requests_rows [of _ sn sr r self w] by (simp add: list_all_iff)
  have 6: "ListObjects (s3_bucket self) (relation_s3_prefix self) \<notin> set ?Q"
    if ne: "relation_s3_prefix self \<noteq> node_s3_prefix self"
  proof
    assume "ListObjects (s3_bucket self) (relation_s3_prefix self) \<in> set ?Q"
    then have "ListObjects (s3_bucket self) (relation_s3_prefix self) \<in> set (filter is_list ?Q)"
      by simp
    with ne show False unfolding 1 by (simp split: if_splits)
  qed
  have 7: "startswith (call_key c) (node_s3_prefix self)" if "c \<in> set ?Q" "is_put_acl c" for c
  proof -
    from load_requests_put_acl [OF that]
    obtain k where "k \<in> set ?L" "c = PutAcl (s3_bucket self) k ''public-read''" by blast
    then show ?thesis by (simp add: listing_startswith)
  qed
  have 8: "\<not> startswith (call_key c) (relation_s3_prefix self)"
    if "\<not> startswith (relation_s3_prefix self) (node_s3_prefix self)"
      "\<not> startswith (node_s3_prefix self) (relation_s3_prefix self)"
      "c \<in> set ?Q" "is_put_acl c" for c
    using 7 [OF that(3,4)] that(1,2) startswith_comparable by blast
  from 1 2 split acls_requests_take [of sn r self w] 3 acl 4 5 6 7 8 show ?thesis by blast
qed

theorem acl_pass_once_after_nodes_witness:
  "fst (load_nodes node_data (nodes ex_record) ex_loader ex_world) = Inr () \<and>
   filter is_list (load_requests node_data relationship_data ex_record ex_loader ex_world) =
     [ListObjects ''bucket'' ''nodes/''] \<and>
   takeWhile (\<lambda>c. \<not> is_list c)
     (load_requests node_data relationship_data ex_record ex_loader ex_world) =
     nodes_requests node_data (nodes ex_record) ex_loader ex_world \<and>
   nodes_requests node_data (nodes ex_record) ex_loader ex_world =
     [HeadObject ''bucket'' ''nodes/Table_0.csv'',
      WriteCsv ''bucket'' ''nodes/Table_0.csv'' (from_records (node_data ex_node))] \<and>
   acls_requests node_data ex_record ex_loader ex_world =
     [ListObjects ''bucket'' ''nodes/'', PutAcl ''bucket'' ''nodes/Table_0.csv'' ''public-read''] \<and>
   relations_requests node_data relationship_data ex_record ex_loader ex_world =
     [HeadObject ''bucket'' ''rels/Table_Column_COLUMN.csv'',
      WriteCsv ''bucket'' ''rels/Table_Column_COLUMN.csv''
        (from_records (relationship_data ex_relation))] \<and>
   load_requests node_data relationship_data ex_record ex_loader ex_world =
     nodes_requests node_data (nodes ex_record) ex_loader ex_world @
     acls_requests node_data ex_record ex_loader ex_world @
     relations_requests node_data relationship_data ex_record ex_loader ex_world \<and>
   fst (update_acls (s3_bucket ex_loader) (node_s3_prefix ex_loader)
      (snd (snd (load_nodes node_data (nodes ex_record) ex_loader ex_world)))) = Inr () \<and>
   listing (s3_bucket ex_loader) (node_s3_prefix ex_loader)
     (snd (snd (load_nodes node_data (nodes ex_record) ex_loader ex_world))) =
     [''nodes/Table_0.csv''] \<and>
   relation_s3_prefix ex_loader \<noteq> node_s3_prefix ex_loader \<and>
   ListObjects (s3_bucket ex_loader) (relation_s3_prefix ex_loader)
     \<notin> set (load_requests node_data relationship_data ex_record ex_loader ex_world) \<and>
   \<not> startswith (relation_s3_prefix ex_loader) (node_s3_prefix ex_loader) \<and>
   \<not> startswith (node_s3_prefix ex_loader) (relation_s3_prefix ex_loader) \<and>
   filter (\<lambda>c. is_put_acl c \<and> startswith (call_key c) (relation_s3_prefix ex_loader))
     (load_requests node_data relationship_data ex_record ex_loader ex_world) = [] \<and>
   filter (\<lambda>c. is_put_acl c \<and> \<not> startswith (call_key c) (node_s3_prefix ex_loader))
     (load_requests node_data relationship_data ex_record ex_loader ex_world) = [] \<and>
   map_option acl
     (map_of
        (objects (snd (update_acls (s3_bucket ex_loader) (node_s3_prefix ex_loader)
                         (snd (snd (load_nodes node_data (nodes ex_record) ex_loader ex_world))))))
        (s3_bucket ex_loader, ''nodes/Table_0.csv'')) = Some ''public-read''"
proof -
  have ok: "fst (load_nodes node_data (nodes ex_record) ex_loader ex_world) = Inr ()"
    by code_simp
  have b: "s3_bucket ex_loader = ''bucket''" and p: "node_s3_prefix ex_loader = ''nodes/''"
    by (simp_all add: ex_loader_def)
  have a: "fst (update_acls (s3_bucket ex_loader) (node_s3_prefix ex_loader)
      (snd (snd (load_nodes node_data (nodes ex_record) ex_loader ex_world)))) = Inr ()"
    by code_simp
  have L: "listing (s3_bucket ex_loader) (node_s3_prefix ex_loader)
      (snd (snd (load_nodes node_data (nodes ex_record) ex_loader ex_world))) =
      [''nodes/Table_0.csv'']"
    by code_simp
  have ne: "relation_s3_prefix ex_loader \<noteq> node_s3_prefix ex_loader"
    by (simp add: ex_loader_def)
  have nc: "\<not> startswith (relation_s3_prefix ex_loader) (node_s3_prefix ex_loader)"
    "\<not> startswith (node_s3_prefix ex_loader) (relation_s3_prefix ex_loader)"
    by (simp_all add: ex_loader_def startswith_def)
  have N: "nodes_requests node_data (nodes ex_record) ex_loader ex_world =
     [HeadObject ''bucket'' ''nodes/Table_0.csv'',
      WriteCsv ''bucket'' ''nodes/Table_0.csv'' (from_records (node_data ex_node))]"
    by code_simp
  note t = acl_pass_once_after_nodes
    [of node_data relationship_data ex_record ex_loader ex_world]
  from t ok a have A0: "acls_requests node_data ex_record ex_loader ex_world =
      ListObjects (s3_bucket ex_loader) (node_s3_prefix ex_loader) #
      map (\<lambda>k. PutAcl (s3_bucket ex_loader) k ''public-read'')
        (listing (s3_bucket ex_loader) (node_s3_prefix ex_loader)
           (snd (snd (load_nodes node_data (nodes ex_record) ex_loader ex_world))))"
    by blast
  have A: "acls_requests node_data ex_record ex_loader ex_world =
     [ListObjects ''bucket'' ''nodes/'', PutAcl ''bucket'' ''nodes/Table_0.csv'' ''public-read'']"
    by (subst A0, subst L) (simp add: b p)
  have R: "relations_requests node_data relationship_data ex_record ex_loader ex_world =
     [HeadObject ''bucket'' ''rels/Table_Column_COLUMN.csv'',
      WriteCsv ''bucket'' ''rels/Table_Column_COLUMN.csv''
        (from_records (relationship_data ex_relation))]"
    by code_simp
  from t have c: "filter is_list
      (load_requests node_data relationship_data ex_record ex_loader ex_world) =
      (if fst (load_nodes node_data (nodes ex_record) ex_loader ex_world) = Inr ()
       then [ListObjects (s3_bucket ex_loader) (node_s3_prefix ex_loader)] else [])"
    by (rule conjunct1)
  have 1: "filter is_list
      (load_requests node_data relationship_data ex_record ex_loader ex_world) =
      [ListObjects (s3_bucket ex_loader) (node_s3_prefix ex_loader)]"
    unfolding c using ok by simp
  from t ok have 2: "takeWhile (\<lambda>c. \<not> is_list c)
      (load_requests node_data relationship_data ex_record ex_loader ex_world) =
      nodes_requests node_data (nodes ex_record) ex_loader ex_world"
    by blast
  from t ok have s: "load_requests node_data relationship_data ex_record ex_loader ex_world =
      nodes_requests node_data (nodes ex_record) ex_loader ex_world @
      acls_requests node_data ex_record ex_loader ex_world @
      (if fst (update_acls (s3_bucket ex_loader) (node_s3_prefix ex_loader)
                 (snd (snd (load_nodes node_data (nodes ex_record) ex_loader ex_world)))) = Inr ()
       then relations_requests node_data relationship_data ex_record ex_loader ex_world else [])"
    by blast
  have 3: "load_requests node_data relationship_data ex_record ex_loader ex_world =
      nodes_requests node_data (nodes ex_record) ex_loader ex_world @
      acls_requests node_data ex_record ex_loader ex_world @
      relations_requests node_data relationship_data ex_record ex_loader ex_world"
    unfolding s using a by simp
  from t ne have 4: "ListObjects (s3_bucket ex_loader) (relation_s3_prefix ex_loader)
      \<notin> set (load_requests node_data relationship_data ex_record ex_loader ex_world)"
    by blast
  from t nc have "\<forall>c\<in>set (load_requests node_data relationship_data ex_record ex_loader ex_world).
      is_put_acl c \<longrightarrow> \<not> startswith (call_key c) (relation_s3_prefix ex_loader)"
    by blast
  then have 5: "filter (\<lambda>c. is_put_acl c \<and> startswith (call_key c) (relation_s3_prefix ex_loader))
      (load_requests node_data relationship_data ex_record ex_loader ex_world) = []"
    by (auto simp: filter_empty_conv)
  from t have "\<forall>c\<in>set (load_requests node_data relationship_data ex_record ex_loader ex_world).
      is_put_acl c \<longrightarrow> startswith (call_key c) (node_s3_prefix ex_loader)"
    by blast
  then have 6: "filter (\<lambda>c. is_put_acl c \<and> \<not> startswith (call_key c) (node_s3_prefix ex_loader))
      (load_requests node_data relationship_data ex_record ex_loader ex_world) = []"
    by (auto simp: filter_empty_conv)
  have m: "''nodes/Table_0.csv'' \<in> set (listing (s3_bucket ex_loader) (node_s3_prefix ex_loader)
      (snd (snd (load_nodes node_data (nodes ex_record) ex_loader ex_world))))"
    by (subst L) simp
  from t ok a m have 7: "map_option acl
     (map_of
        (objects (snd (update_acls (s3_bucket ex_loader) (node_s3_prefix ex_loader)
                         (snd (snd (load_nodes node_data (nodes ex_record) ex_loader ex_world))))))
        (s3_bucket ex_loader, ''nodes/Table_0.csv'')) = Some ''public-read''"
    by blast
  from ok 1 [unfolded b p] 2 N A R 3 a L ne 4 nc 5 6 7 show ?thesis by blast
qed

text \<open>
  C6 as stated fails in two ways. When the existence check of the first node ends in an
  exception that is not a \<open>ClientError\<close>, \<open>load\<close> ends with that exception after this one
  request, and no listing is made. And when the relationship prefix is the node prefix,
  the one listing is a listing of the relationship prefix, and the ACL of a stored
  relationship object is updated.
\<close>

theorem acl_pass_counterexample:
  "fst (load node_data relationship_data ex_record ex_loader ex_world_unreachable) =
     Inl (OtherError ''EndpointConnectionError'') \<and>
   load_requests node_data relationship_data ex_record ex_loader ex_world_unreachable =
     [HeadObject ''bucket'' ''nodes/Table_0.csv''] \<and>
   length (filter is_list
     (load_requests node_data relationship_data ex_record ex_loader ex_world_unreachable)) = 0 \<and>
   relation_s3_prefix ex_loader_shared = ''data/'' \<and>
   load_requests node_data relationship_data ex_empty_record ex_loader_shared ex_world_shared =
     [ListObjects ''bucket'' ''data/'',
      PutAcl ''bucket'' ''data/Table_Column_COLUMN.csv'' ''public-read''] \<and>
   map (\<lambda>kv. (fst kv, acl (snd kv)))
     (objects (snd (snd
        (load node_data relationship_data ex_empty_record ex_loader_shared ex_world_shared)))) =
     [((''bucket'', ''data/Table_Column_COLUMN.csv''), ''public-read'')]"
  by code_simp

text \<open>
  C9, as amended. For a record without nodes and without relationships \<open>load\<close> makes no
  read and no write; its requests are the listing of the node prefix followed by one
  \<open>public-read\<close> update for each object that the store already holds under that prefix,
  in listing order, up to the first request that fails. When the call ends without an
  exception every such object has had its update and has the ACL \<open>public-read\<close>. When
  no object is stored under the node prefix the listing is the only request and the
  objects of the store are as they were.
\<close>

theorem empty_record_requests:
  assumes "nodes r = []" and "relations r = []"
  shows "filter is_read (load_requests sn sr r self w) = [] \<and>
         filter is_write (load_requests sn sr r self w) = [] \<and>
         load_requests sn sr r self w =
           ListObjects (s3_bucket self) (node_s3_prefix self) #
           map (\<lambda>k. PutAcl (s3_bucket self) k ''public-read'')
             (take (length (load_requests sn sr r self w) - 1)
                (listing (s3_bucket self) (node_s3_prefix self) w)) \<and>
         (fst (load sn sr r self w) = Inr () \<longrightarrow>
            load_requests sn sr r self w =
              ListObjects (s3_bucket self) (node_s3_prefix self) #
              map (\<lambda>k. PutAcl (s3_bucket self) k ''public-read'')
                (listing (s3_bucket self) (node_s3_prefix self) w) \<and>
            (\<forall>k\<in>set (listing (s3_bucket self) (node_s3_prefix self) w).
               map_option acl
                 (map_of (objects (snd (snd (load sn sr r self w)))) (s3_bucket self, k)) =
               Some ''public-read'')) \<and>
         (listing (s3_bucket self) (node_s3_prefix self) w = [] \<longrightarrow>
            load_requests sn sr r self w = [ListObjects (s3_bucket self) (node_s3_prefix self)] \<and>
            objects (snd (snd (load sn sr r self w))) = objects w)"
proof -
  let ?b = "s3_bucket self" and ?p = "node_s3_prefix self"
  let ?L = "listing ?b ?p w"
  let ?a = "update_acls ?b ?p w"
  have n: "load_nodes sn (nodes r) self w = (Inr (), self, w)"
    using assms(1) by simp
  have l: "load sn sr r self w = (case fst ?a of Inl e \<Rightarrow> (Inl e, self, snd ?a)
                                 | Inr u \<Rightarrow> (Inr (), self, snd ?a))"
    using assms by (simp add: load_unfold Let_def split: sum.splits)
  have req: "load_requests sn sr r self w = acls_requests sn r self w"
    using assms by (subst load_requests_split) (simp add: relations_requests_Nil)
  have 1: "filter is_read (load_requests sn sr r self w) = []"
    and 2: "filter is_write (load_requests sn sr r self w) = []"
    unfolding req by (rule acls_requests_no_rows)+
  have 3: "load_requests sn sr r self w =
      ListObjects ?b ?p # map (\<lambda>k. PutAcl ?b k ''public-read'')
        (take (length (load_requests sn sr r self w) - 1) ?L)"
    unfolding req using acls_requests_take [of sn r self w] n by simp
  from acls_requests_shape [of self sn r w] n
  obtain m where m: "acls_requests sn r self w =
      ListObjects ?b ?p # map (\<lambda>k. PutAcl ?b k ''public-read'') (take m ?L)"
    "fst ?a = Inr () \<longrightarrow> m = length ?L"
    by auto
  have ok: "fst ?a = Inr ()" if "fst (load sn sr r self w) = Inr ()"
    using that l by (cases "fst ?a") simp_all
  have fin: "snd (snd (load sn sr r self w)) = snd ?a"
    using l by (cases "fst ?a") simp_all
  have 4: "load_requests sn sr r self w =
      ListObjects ?b ?p # map (\<lambda>k. PutAcl ?b k ''public-read'') ?L"
    if "fst (load sn sr r self w) = Inr ()"
    using ok [OF that] m unfolding req by simp
  have 5: "map_option acl (map_of (objects (snd (snd (load sn sr r self w)))) (?b, k)) =
      Some ''public-read''"
    if "fst (load sn sr r self w) = Inr ()" "k \<in> set ?L" for k
    unfolding fin using ok [OF that(1)] that(2) by (rule update_acls_sets_public)
  have 6: "load_requests sn sr r self w = [ListObjects ?b ?p] \<and>
      objects (snd (snd (load sn sr r self w))) = objects w" if e: "?L = []"
  proof
    from m(1) e show "load_requests sn sr r self w = [ListObjects ?b ?p]"
      unfolding req by simp
    have "objects (snd ?a) = objects w"
    proof (cases "fault w (length (trace w)) (ListObjects ?b ?p)")
      case (Some err)
      then show ?thesis by (simp add: update_acls_def list_objects_def request_def)
    next
      case None
      have "listing ?b ?p (snd (request (ListObjects ?b ?p) w)) = []"
        using e by (simp only: listing_request)
      with None show ?thesis by (simp add: update_acls_def list_objects_def request_def)
    qed
    then show "objects (snd (snd (load sn sr r self w))) = objects w"
      unfolding fin .
  qed
  from 1 2 3 4 5 6 show ?thesis by blast
qed

theorem empty_record_requests_witness:
  "nodes ex_empty_record = [] \<and> relations ex_empty_record = [] \<and>
   listing (s3_bucket ex_loader) (node_s3_prefix ex_loader) ex_world = [] \<and>
   load_requests node_data relationship_data ex_empty_record ex_loader ex_world =
     [ListObjects (s3_bucket ex_loader) (node_s3_prefix ex_loader)] \<and>
   objects (snd (snd (load node_data relationship_data ex_empty_record ex_loader ex_world))) =
     objects ex_world \<and>
   fst (load node_data relationship_data ex_empty_record ex_loader ex_world_stored) = Inr () \<and>
   listing (s3_bucket ex_loader) (node_s3_prefix ex_loader) ex_world_stored =
     [''nodes/Table_0.csv''] \<and>
   load_requests node_data relationship_data ex_empty_record ex_loader ex_world_stored =
     [ListObjects (s3_bucket ex_loader) (node_s3_prefix ex_loader),
      PutAcl (s3_bucket ex_loader) ''nodes/Table_0.csv'' ''public-read''] \<and>
   filter is_read
     (load_requests node_data relationship_data ex_empty_record ex_loader ex_world_stored) = [] \<and>
   filter is_write
     (load_requests node_data relationship_data ex_empty_record ex_loader ex_world_stored) = [] \<and>
   map_option acl
     (map_of (objects (snd (snd
        (load node_data relationship_data ex_empty_record ex_loader ex_world_stored))))
        (s3_bucket ex_loader, ''nodes/Table_0.csv'')) = Some ''public-read'' \<and>
   listing (s3_bucket ex_loader) (node_s3_prefix ex_loader) ex_world_unlisted =
     [''nodes/Column_1.csv'', ''nodes/Table_0.csv''] \<and>
   load_requests node_data relationship_data ex_empty_record ex_loader ex_world_unlisted =
     [ListObjects (s3_bucket ex_loader) (node_s3_prefix ex_loader)]"
proof -
  have n: "nodes ex_empty_record = []" and r: "relations ex_empty_record = []"
    by (simp_all add: ex_empty_record_def)
  have e: "listing (s3_bucket ex_loader) (node_s3_prefix ex_loader) ex_world = []"
    by code_simp
  have ok: "fst (load node_data relationship_data ex_empty_record ex_loader ex_world_stored) =
      Inr ()"
    by code_simp
  have l: "listing (s3_bucket ex_loader) (node_s3_prefix ex_loader) ex_world_stored =
      [''nodes/Table_0.csv'']"
    by code_simp
  note t1 = empty_record_requests
    [OF n r, of node_data relationship_data ex_loader ex_world]
  note t2 = empty_record_requests
    [OF n r, of node_data relationship_data ex_loader ex_world_stored]
  from t1 e have 1:
    "load_requests node_data relationship_data ex_empty_record ex_loader ex_world =
       [ListObjects (s3_bucket ex_loader) (node_s3_prefix ex_loader)]"
    "objects (snd (snd (load node_data relationship_data ex_empty_record ex_loader ex_world))) =
       objects ex_world"
    by blast+
  have m: "''nodes/Table_0.csv'' \<in>
      set (listing (s3_bucket ex_loader) (node_s3_prefix ex_loader) ex_world_stored)"
    unfolding l by simp
  from t2 ok m have 4: "map_option acl
     (map_of (objects (snd (snd
        (load node_data relationship_data ex_empty_record ex_loader ex_world_stored))))
        (s3_bucket ex_loader, ''nodes/Table_0.csv'')) = Some ''public-read''"
    by blast
  have u: "listing (s3_bucket ex_loader) (node_s3_prefix ex_loader) ex_world_unlisted =
      [''nodes/Column_1.csv'', ''nodes/Table_0.csv'']"
    by code_simp
  have c: "length (load_requests node_data relationship_data ex_empty_record ex_loader
      ex_world_unlisted) = 1"
    by code_simp
  note t3 = empty_record_requests
    [OF n r, of node_data relationship_data ex_loader ex_world_unlisted]
  from t3 have "load_requests node_data relationship_data ex_empty_record ex_loader
      ex_world_unlisted =
      ListObjects (s3_bucket ex_loader) (node_s3_prefix ex_loader) #
      map (\<lambda>k. PutAcl (s3_bucket ex_loader) k ''public-read'')
        (take (length (load_requests node_data relationship_data ex_empty_record ex_loader
                 ex_world_unlisted) - 1)
           (listing (s3_bucket ex_loader) (node_s3_prefix ex_loader) ex_world_unlisted))"
    by blast
  then have 5: "load_requests node_data relationship_data ex_empty_record ex_loader
      ex_world_unlisted = [ListObjects (s3_bucket ex_loader) (node_s3_prefix ex_loader)]"
    unfolding c by simp
  from t2 ok have "load_requests node_data relationship_data ex_empty_record ex_loader
      ex_world_stored =
      ListObjects (s3_bucket ex_loader) (node_s3_prefix ex_loader) #
      map (\<lambda>k. PutAcl (s3_bucket ex_loader) k ''public-read'')
        (listing (s3_bucket ex_loader) (node_s3_prefix ex_loader) ex_world_stored)"
    by blast
  then have 2: "load_requests node_data relationship_data ex_empty_record ex_loader
      ex_world_stored =
      [ListObjects (s3_bucket ex_loader) (node_s3_prefix ex_loader),
       PutAcl (s3_bucket ex_loader) ''nodes/Table_0.csv'' ''public-read'']"
    unfolding l by simp
  from t2 have 3: "filter is_read
      (load_requests node_data relationship_data ex_empty_record ex_loader ex_world_stored) = []"
    "filter is_write
      (load_requests node_data relationship_data ex_empty_record ex_loader ex_world_stored) = []"
    by blast+
  from n r e 1 ok l 2 3 4 u 5 show ?thesis by blast
qed

text \<open>
  C9 as stated fails: with one object already stored under the node prefix, \<open>load\<close> of
  a record without nodes and without relationships updates the ACL of that object, from
  \<open>private\<close> to \<open>public-read\<close>.
\<close>

theorem empty_record_counterexample:
  "nodes ex_empty_record = [] \<and> relations ex_empty_record = [] \<and>
   filter is_put_acl
     (load_requests node_data relationship_data ex_empty_record ex_loader ex_world_stored) =
     [PutAcl ''bucket'' ''nodes/Table_0.csv'' ''public-read''] \<and>
   map (\<lambda>kv. (fst kv, acl (snd kv))) (objects ex_world_stored) =
     [((''bucket'', ''nodes/Table_0.csv''), ''private'')] \<and>
   map (\<lambda>kv. (fst kv, acl (snd kv)))
     (objects (snd (snd
        (load node_data relationship_data ex_empty_record ex_loader ex_world_stored)))) =
     [((''bucket'', ''nodes/Table_0.csv''), ''public-read'')]"
  by code_simp

text \<open>
  C4, as amended. For a record of exactly one node and no relationship, when the store
  holds no object under the node's key and answers the existence check accordingly,
  \<open>load\<close> makes exactly one write and no read; the write is to the node's key, and what
  is written is a table of a single row: its header has as many names as the node's row
  has columns, and they are the column names of that row; its cells are the values the
  row has for them. When the store accepts the write, that table is what it holds under
  the key after the call.
\<close>

theorem one_node_new_file:
  assumes "nodes r = [node]" and "relations r = []"
    and "map_of (objects w)
           (s3_bucket self,
            node_object_key (node_s3_prefix self) (label node) (fst (make_key (sn node) self))) =
         None"
    and "fault w (length (trace w))
           (HeadObject (s3_bucket self)
              (node_object_key (node_s3_prefix self) (label node)
                 (fst (make_key (sn node) self)))) = None"
  shows "filter is_write (load_requests sn sr r self w) =
           [WriteCsv (s3_bucket self)
              (node_object_key (node_s3_prefix self) (label node) (fst (make_key (sn node) self)))
              (from_records (sn node))] \<and>
         filter is_read (load_requests sn sr r self w) = [] \<and>
         length (rows (from_records (sn node))) = 1 \<and>
         set (columns (from_records (sn node))) = set (map fst (sn node)) \<and>
         length (columns (from_records (sn node))) = length (sn node) \<and>
         rows (from_records (sn node)) =
           [map (map_of (sn node)) (columns (from_records (sn node)))] \<and>
         (fault w (Suc (length (trace w)))
            (WriteCsv (s3_bucket self)
               (node_object_key (node_s3_prefix self) (label node)
                  (fst (make_key (sn node) self)))
               (from_records (sn node))) = None \<longrightarrow>
          map_option body
            (map_of (objects (snd (snd (load sn sr r self w))))
               (s3_bucket self,
                node_object_key (node_s3_prefix self) (label node)
                  (fst (make_key (sn node) self)))) =
          Some (from_records (sn node)))"
proof -
  let ?b = "s3_bucket self" and ?p = "node_s3_prefix self"
  let ?sfx = "label node @ ''_'' @ str (fst (make_key (sn node) self))"
  let ?key = "node_object_key ?p (label node) (fst (make_key (sn node) self))"
  let ?k = "(label node, fst (make_key (sn node) self))"
  have key: "?p @ ?sfx @ ''.csv'' = ?key"
    by (simp add: node_object_key_def)
  have "trace (snd (get_s3_object (sn node) ?k ?b ?p ?sfx w)) =
      trace w @ [HeadObject ?b ?key, WriteCsv ?b ?key (from_records (sn node))]"
    using get_s3_object_absent [of w ?b ?p ?sfx "sn node" ?k] assms(3,4) unfolding key by simp
  then have N: "nodes_requests sn (nodes r) self w =
      [HeadObject ?b ?key, WriteCsv ?b ?key (from_records (sn node))]"
    unfolding assms(1) nodes_requests_single by (rule requests_since_append)
  have split: "load_requests sn sr r self w =
      nodes_requests sn (nodes r) self w @
      (if fst (load_nodes sn (nodes r) self w) = Inr () then acls_requests sn r self w else [])"
    using assms(2) by (subst load_requests_split) (simp add: relations_requests_Nil)
  have 1: "filter is_write (load_requests sn sr r self w) =
      [WriteCsv ?b ?key (from_records (sn node))]"
    unfolding split N by (simp add: acls_requests_no_rows)
  have 2: "filter is_read (load_requests sn sr r self w) = []"
    unfolding split N by (simp add: acls_requests_no_rows)
  have 3: "map_option body (map_of (objects (snd (snd (load sn sr r self w)))) (?b, ?key)) =
      Some (from_records (sn node))"
    if "fault w (Suc (length (trace w))) (WriteCsv ?b ?key (from_records (sn node))) = None"
    using get_s3_object_absent_stored [of w ?b ?p ?sfx "sn node" ?k] assms(3,4) that
    unfolding key load_single_bodies [OF assms(1,2)] by simp
  have 4: "length (rows (from_records (sn node))) = 1"
    by (simp add: from_records_rows)
  from 1 2 3 4 from_records_columns [of "sn node"] from_records_rows [of "sn node"]
  show ?thesis by blast
qed

theorem one_node_new_file_witness:
  "nodes ex_node_record = [ex_node] \<and> relations ex_node_record = [] \<and>
   node_object_key (node_s3_prefix ex_loader) (label ex_node)
     (fst (make_key (node_data ex_node) ex_loader)) = ''nodes/Table_0.csv'' \<and>
   map_of (objects ex_world) (s3_bucket ex_loader, ''nodes/Table_0.csv'') = None \<and>
   fault ex_world (length (trace ex_world))
     (HeadObject (s3_bucket ex_loader) ''nodes/Table_0.csv'') = None \<and>
   filter is_write
     (load_requests node_data relationship_data ex_node_record ex_loader ex_world) =
     [WriteCsv (s3_bucket ex_loader) ''nodes/Table_0.csv'' (from_records (node_data ex_node))] \<and>
   filter is_read
     (load_requests node_data relationship_data ex_node_record ex_loader ex_world) = [] \<and>
   map fst (node_data ex_node) = [''LABEL'', ''KEY''] \<and>
   columns (from_records (node_data ex_node)) = [''KEY'', ''LABEL''] \<and>
   set (columns (from_records (node_data ex_node))) = set (map fst (node_data ex_node)) \<and>
   rows (from_records (node_data ex_node)) = [[Some ''db://t1'', Some ''Table'']] \<and>
   fault ex_world (Suc (length (trace ex_world)))
     (WriteCsv (s3_bucket ex_loader) ''nodes/Table_0.csv'' (from_records (node_data ex_node))) =
     None \<and>
   map_option body
     (map_of (objects (snd (snd
        (load node_data relationship_data ex_node_record ex_loader ex_world))))
        (s3_bucket ex_loader, ''nodes/Table_0.csv'')) =
     Some (from_records (node_data ex_node))"
proof -
  have n: "nodes ex_node_record = [ex_node]" and r: "relations ex_node_record = []"
    by (simp_all add: ex_node_record_def)
  have k: "node_object_key (node_s3_prefix ex_loader) (label ex_node)
      (fst (make_key (node_data ex_node) ex_loader)) = ''nodes/Table_0.csv''"
    by code_simp
  have o: "map_of (objects ex_world) (s3_bucket ex_loader, ''nodes/Table_0.csv'') = None"
    by (simp add: ex_world_def)
  have f: "fault ex_world (length (trace ex_world))
      (HeadObject (s3_bucket ex_loader) ''nodes/Table_0.csv'') = None"
    by (simp add: ex_world_def)
  have c: "map fst (node_data ex_node) = [''LABEL'', ''KEY'']"
    by (simp add: ex_node_def)
  have h: "columns (from_records (node_data ex_node)) = [''KEY'', ''LABEL'']"
    by code_simp
  have v: "map (map_of (node_data ex_node)) [''KEY'', ''LABEL''] =
      [Some ''db://t1'', Some ''Table'']"
    by (simp add: ex_node_def)
  note t = one_node_new_file [of ex_node_record ex_node ex_world ex_loader node_data
      relationship_data, unfolded k, OF n r o f]
  from t have 1: "filter is_write
      (load_requests node_data relationship_data ex_node_record ex_loader ex_world) =
      [WriteCsv (s3_bucket ex_loader) ''nodes/Table_0.csv'' (from_records (node_data ex_node))]"
    and 2: "filter is_read
      (load_requests node_data relationship_data ex_node_record ex_loader ex_world) = []"
    and 3: "set (columns (from_records (node_data ex_node))) = set (map fst (node_data ex_node))"
    and 4: "rows (from_records (node_data ex_node)) =
      [map (map_of (node_data ex_node)) (columns (from_records (node_data ex_node)))]"
    by blast+
  from 4 have rw: "rows (from_records (node_data ex_node)) = [[Some ''db://t1'', Some ''Table'']]"
    unfolding h v .
  have g: "fault ex_world (Suc (length (trace ex_world)))
      (WriteCsv (s3_bucket ex_loader) ''nodes/Table_0.csv'' (from_records (node_data ex_node))) =
      None"
    by (simp add: ex_world_def)
  from t g have 5: "map_option body
     (map_of (objects (snd (snd
        (load node_data relationship_data ex_node_record ex_loader ex_world))))
        (s3_bucket ex_loader, ''nodes/Table_0.csv'')) =
     Some (from_records (node_data ex_node))"
    by blast
  from n r k o f 1 2 c h 3 rw g 5 show ?thesis by blast
qed

text \<open>
  C4 as stated fails: a record of exactly one node, whose key the store does not hold,
  and of one relationship makes \<open>load\<close> write twice, once for the node and once for the
  relationship.
\<close>

theorem one_node_new_file_counterexample:
  "length (nodes ex_record) = 1 \<and>
   objects ex_world = [] \<and>
   fst (load node_data relationship_data ex_record ex_loader ex_world) = Inr () \<and>
   map call_key
     (filter is_write (load_requests node_data relationship_data ex_record ex_loader ex_world)) =
     [''nodes/Table_0.csv'', ''rels/Table_Column_COLUMN.csv'']"
  by code_simp

text \<open>
  C5, as amended. For a record of exactly one node and no relationship, when the store
  holds a table under the node's key, answers the existence check and the read, and the
  table read has \<open>N\<close> rows, \<open>load\<close> makes exactly one read and then exactly one write,
  both of the node's key; the table written has \<open>N + 1\<close> rows and the last of them is the
  row of the node: the header has every column name of the node's row, and under each
  column of the header the last row has the value that the node's row has for it, or
  nothing where the node's row has no such column.
\<close>

theorem one_node_existing_file:
  assumes "nodes r = [node]" and "relations r = []"
    and "map_of (objects w)
           (s3_bucket self,
            node_object_key (node_s3_prefix self) (label node) (fst (make_key (sn node) self))) =
         Some obj"
    and "length (rows (read_back w (body obj))) = N"
    and "fault w (length (trace w))
           (HeadObject (s3_bucket self)
              (node_object_key (node_s3_prefix self) (label node)
                 (fst (make_key (sn node) self)))) = None"
    and "fault w (Suc (length (trace w)))
           (ReadCsv (s3_bucket self)
              (node_object_key (node_s3_prefix self) (label node)
                 (fst (make_key (sn node) self)))) = None"
  shows "filter (\<lambda>c. is_read c \<or> is_write c) (load_requests sn sr r self w) =
           [ReadCsv (s3_bucket self)
              (node_object_key (node_s3_prefix self) (label node) (fst (make_key (sn node) self))),
            WriteCsv (s3_bucket self)
              (node_object_key (node_s3_prefix self) (label node) (fst (make_key (sn node) self)))
              (df_append (read_back w (body obj)) (from_records (sn node)))] \<and>
         length (rows (df_append (read_back w (body obj)) (from_records (sn node)))) = N + 1 \<and>
         set (map fst (sn node)) \<subseteq>
           set (columns (df_append (read_back w (body obj)) (from_records (sn node)))) \<and>
         last (rows (df_append (read_back w (body obj)) (from_records (sn node)))) =
           map (map_of (sn node))
             (columns (df_append (read_back w (body obj)) (from_records (sn node))))"
proof -
  let ?b = "s3_bucket self" and ?p = "node_s3_prefix self"
  let ?sfx = "label node @ ''_'' @ str (fst (make_key (sn node) self))"
  let ?key = "node_object_key ?p (label node) (fst (make_key (sn node) self))"
  let ?k = "(label node, fst (make_key (sn node) self))"
  let ?df = "df_append (read_back w (body obj)) (from_records (sn node))"
  have key: "?p @ ?sfx @ ''.csv'' = ?key"
    by (simp add: node_object_key_def)
  have "trace (snd (get_s3_object (sn node) ?k ?b ?p ?sfx w)) =
      trace w @ [HeadObject ?b ?key, ReadCsv ?b ?key, WriteCsv ?b ?key ?df]"
    using get_s3_object_present [of w ?b ?p ?sfx obj "sn node" ?k] assms(3,5,6) unfolding key
    by simp
  then have N: "nodes_requests sn (nodes r) self w =
      [HeadObject ?b ?key, ReadCsv ?b ?key, WriteCsv ?b ?key ?df]"
    unfolding assms(1) nodes_requests_single by (rule requests_since_append)
  have split: "load_requests sn sr r self w =
      nodes_requests sn (nodes r) self w @
      (if fst (load_nodes sn (nodes r) self w) = Inr () then acls_requests sn r self w else [])"
    using assms(2) by (subst load_requests_split) (simp add: relations_requests_Nil)
  have none: "filter (\<lambda>c. is_read c \<or> is_write c) (acls_requests sn r self w) = []"
    using acls_requests_no_rows [of sn r self w] by (auto simp: filter_empty_conv)
  have 1: "filter (\<lambda>c. is_read c \<or> is_write c) (load_requests sn sr r self w) =
      [ReadCsv ?b ?key, WriteCsv ?b ?key ?df]"
    unfolding split N by (simp add: none)
  have 2: "length (rows ?df) = N + 1"
    using assms(4) by (simp add: df_append_length from_records_rows)
  have 3: "set (map fst (sn node)) \<subseteq> set (columns ?df)"
    by (simp add: df_append_columns from_records_columns)
  have 4: "last (rows ?df) = map (map_of (sn node)) (columns ?df)"
    by (rule df_append_last)
  from 1 2 3 4 show ?thesis by blast
qed

theorem one_node_existing_file_witness:
  "nodes ex_node_record = [ex_node] \<and> relations ex_node_record = [] \<and>
   node_object_key (node_s3_prefix ex_loader) (label ex_node)
     (fst (make_key (node_data ex_node) ex_loader)) = ''nodes/Table_0.csv'' \<and>
   map_of (objects ex_world_stored) (s3_bucket ex_loader, ''nodes/Table_0.csv'') =
     Some \<lparr>body = ex_table, acl = ''private''\<rparr> \<and>
   length (rows (read_back ex_world_stored ex_table)) = 1 \<and>
   fault ex_world_stored (length (trace ex_world_stored))
     (HeadObject (s3_bucket ex_loader) ''nodes/Table_0.csv'') = None \<and>
   fault ex_world_stored (Suc (length (trace ex_world_stored)))
     (ReadCsv (s3_bucket ex_loader) ''nodes/Table_0.csv'') = None \<and>
   filter (\<lambda>c. is_read c \<or> is_write c)
     (load_requests node_data relationship_data ex_node_record ex_loader ex_world_stored) =
     [ReadCsv (s3_bucket ex_loader) ''nodes/Table_0.csv'',
      WriteCsv (s3_bucket ex_loader) ''nodes/Table_0.csv''
        (df_append (read_back ex_world_stored ex_table) (from_records (node_data ex_node)))] \<and>
   df_append (read_back ex_world_stored ex_table) (from_records (node_data ex_node)) =
     \<lparr>columns = [''KEY'', ''LABEL''],
      rows = [[Some ''db://t0'', Some ''Table''], [Some ''db://t1'', Some ''Table'']]\<rparr> \<and>
   length (rows (df_append (read_back ex_world_stored ex_table)
                   (from_records (node_data ex_node)))) = 2 \<and>
   last (rows (df_append (read_back ex_world_stored ex_table)
                 (from_records (node_data ex_node)))) =
     map (map_of (node_data ex_node))
       (columns (df_append (read_back ex_world_stored ex_table)
                   (from_records (node_data ex_node))))"
proof -
  let ?obj = "\<lparr>body = ex_table, acl = ''private''\<rparr>"
  have n: "nodes ex_node_record = [ex_node]" and r: "relations ex_node_record = []"
    by (simp_all add: ex_node_record_def)
  have k: "node_object_key (node_s3_prefix ex_loader) (label ex_node)
      (fst (make_key (node_data ex_node) ex_loader)) = ''nodes/Table_0.csv''"
    by code_simp
  have o: "map_of (objects ex_world_stored) (s3_bucket ex_loader, ''nodes/Table_0.csv'') =
      Some ?obj"
    by (simp add: ex_world_stored_def ex_loader_def)
  have N: "length (rows (read_back ex_world_stored (body ?obj))) = 1"
    by (simp add: ex_table_def ex_world_stored_def)
  have f: "fault ex_world_stored (length (trace ex_world_stored))
      (HeadObject (s3_bucket ex_loader) ''nodes/Table_0.csv'') = None"
    by (simp add: ex_world_stored_def)
  have g: "fault ex_world_stored (Suc (length (trace ex_world_stored)))
      (ReadCsv (s3_bucket ex_loader) ''nodes/Table_0.csv'') = None"
    by (simp add: ex_world_stored_def)
  have d: "df_append (read_back ex_world_stored ex_table) (from_records (node_data ex_node)) =
     \<lparr>columns = [''KEY'', ''LABEL''],
      rows = [[Some ''db://t0'', Some ''Table''], [Some ''db://t1'', Some ''Table'']]\<rparr>"
    by code_simp
  note t = one_node_existing_file [of ex_node_record ex_node ex_world_stored ex_loader
      node_data ?obj 1 relationship_data, unfolded k, OF n r o N f g]
  from t have 1: "filter (\<lambda>c. is_read c \<or> is_write c)
     (load_requests node_data relationship_data ex_node_record ex_loader ex_world_stored) =
     [ReadCsv (s3_bucket ex_loader) ''nodes/Table_0.csv'',
      WriteCsv (s3_bucket ex_loader) ''nodes/Table_0.csv''
        (df_append (read_back ex_world_stored ex_table) (from_records (node_data ex_node)))]"
    and 2: "length (rows (df_append (read_back ex_world_stored ex_table)
                   (from_records (node_data ex_node)))) = 2"
    and 3: "last (rows (df_append (read_back ex_world_stored ex_table)
                 (from_records (node_data ex_node)))) =
     map (map_of (node_data ex_node))
       (columns (df_append (read_back ex_world_stored ex_table)
                   (from_records (node_data ex_node))))"
    by simp_all
  have N': "length (rows (read_back ex_world_stored ex_table)) = 1"
    using N by simp
  from n r k o N' f g 1 d 2 3 show ?thesis by blast
qed

text \<open>
  C5 as stated fails: a record of exactly one node, under whose key the store holds a
  table, and of one relationship makes \<open>load\<close> write twice, once for the node and once
  for the relationship.
\<close>

theorem one_node_existing_file_counterexample:
  "length (nodes ex_record) = 1 \<and>
   map (\<lambda>kv. (fst kv, length (rows (body (snd kv))))) (objects ex_world_stored) =
     [((''bucket'', ''nodes/Table_0.csv''), 1)] \<and>
   fst (load node_data relationship_data ex_record ex_loader ex_world_stored) = Inr () \<and>
   map call_key
     (filter is_read
        (load_requests node_data relationship_data ex_record ex_loader ex_world_stored)) =
     [''nodes/Table_0.csv''] \<and>
   map call_key
     (filter is_write
        (load_requests node_data relationship_data ex_record ex_loader ex_world_stored)) =
     [''nodes/Table_0.csv'', ''rels/Table_Column_COLUMN.csv'']"
  by code_simp

section \<open>Where the code departs from its documentation\<close>

text \<open>
  C1. \<open>load\<close> computes the signature id of a relationship row and puts it into
  \<open>key2\<close>, but the file suffix is built from the first three components of \<open>key2\<close> only,
  where the file suffix of a node is built from both components of its key. Two
  relationships between the same labels and of the same type whose rows have different
  columns get the signature ids 0 and 1, and both rows are written to the one object
  \<open>rels/Table_Column_COLUMN.csv\<close>, which ends up holding rows of both column sets; the
  keys of the spec's file naming would be \<open>rels/Table_Column_COLUMN_0.csv\<close> and
  \<open>rels/Table_Column_COLUMN_1.csv\<close>.
\<close>

theorem relationship_rows_share_object:
  "start_label ex_relation = start_label ex_relation' \<and>
   end_label ex_relation = end_label ex_relation' \<and>
   type ex_relation = type ex_relation' \<and>
   fst (make_key (relationship_data ex_relation) ex_loader) = 0 \<and>
   fst (make_key (relationship_data ex_relation')
          (snd (make_key (relationship_data ex_relation) ex_loader))) = 1 \<and>
   map call_key
     (filter is_write
        (load_requests node_data relationship_data ex_relations_record ex_loader ex_world)) =
     [''rels/Table_Column_COLUMN.csv'', ''rels/Table_Column_COLUMN.csv''] \<and>
   relation_object_key ''rels/'' ''Table'' ''Column'' ''COLUMN'' 0 =
     ''rels/Table_Column_COLUMN_0.csv'' \<and>
   relation_object_key ''rels/'' ''Table'' ''Column'' ''COLUMN'' 1 =
     ''rels/Table_Column_COLUMN_1.csv'' \<and>
   map (\<lambda>kv. (fst kv, body (snd kv)))
     (objects (snd (snd
        (load node_data relationship_data ex_relations_record ex_loader ex_world)))) =
     [((''bucket'', ''rels/Table_Column_COLUMN.csv''),
       \<lparr>columns = [''END_KEY'', ''START_KEY'', ''sort_order''],
        rows = [[Some ''db://t1/c1'', Some ''db://t1'', None],
                [Some ''db://t1/c2'', Some ''db://t1'', Some ''2'']]\<rparr>)]"
  by code_simp

text \<open>
  C2. \<open>_s3_obj_exists\<close> catches every \<open>ClientError\<close> and compares its code with 404, but
  for any other code it neither returns nor raises again, so the function returns
  \<open>None\<close> and \<open>_get_s3_object\<close>, which tests \<open>== True\<close>, takes the branch that creates
  the file. With a store that holds a table under the node's key and answers the
  existence check with a \<open>ClientError\<close> of code 403, \<open>load\<close> ends without an exception,
  makes no read, and replaces the stored table by the table of the new row alone.
\<close>

theorem existence_check_denied_is_swallowed:
  "fault ex_world_denied 0 (HeadObject ''bucket'' ''nodes/Table_0.csv'') =
     Some (ClientError ''403'') \<and>
   fst (s3_obj_exists (node_data ex_node) (''Table'', 0 :: nat) ''nodes/'' ''Table_0'' ''bucket''
          ex_world_denied) =
     Inr None \<and>
   fst (load node_data relationship_data ex_node_record ex_loader ex_world_denied) = Inr () \<and>
   load_requests node_data relationship_data ex_node_record ex_loader ex_world_denied =
     [HeadObject ''bucket'' ''nodes/Table_0.csv'',
      WriteCsv ''bucket'' ''nodes/Table_0.csv'' (from_records (node_data ex_node)),
      ListObjects ''bucket'' ''nodes/'',
      PutAcl ''bucket'' ''nodes/Table_0.csv'' ''public-read''] \<and>
   map (\<lambda>kv. (fst kv, body (snd kv))) (objects ex_world_denied) =
     [((''bucket'', ''nodes/Table_0.csv''), ex_table)] \<and>
   map (\<lambda>kv. (fst kv, body (snd kv)))
     (objects (snd (snd
        (load node_data relationship_data ex_node_record ex_loader ex_world_denied)))) =
     [((''bucket'', ''nodes/Table_0.csv''), from_records (node_data ex_node))]"
  by code_simp

end
